theory Spec2Isabelle
  imports Complex_Main
begin

section \<open>The NCF data pipeline (official/recommendation/data_pipeline.py)\<close>

text \<open>
  A shallow embedding of \<^verbatim>\<open>BaseDataConstructor\<close> and
  \<^verbatim>\<open>MaterializedDataConstructor\<close>. Python integers are \<open>int\<close>; the numpy
  arrays of the pipeline are one-dimensional integer sequences (\<open>int list\<close>), so the
  shape of an array is its length; the negative table is a list of rows.
  A method either returns, raises, or waits forever on the shuffle producer.
\<close>

subsection \<open>Outcomes of a call\<close>

datatype error = AssertionError | ValueError | IndexError | ZeroDivisionError | TypeError

datatype 'a result = Ok 'a | Raise error | Blocked

definition and_then :: "'a result \<Rightarrow> ('a \<Rightarrow> 'b result) \<Rightarrow> 'b result" where
  "and_then m f = (case m of Ok v \<Rightarrow> f v | Raise e \<Rightarrow> Raise e | Blocked \<Rightarrow> Blocked)"

text \<open>Python's \<^verbatim>\<open>//\<close> and \<^verbatim>\<open>%\<close> on integers: floor division, as \<open>div\<close> and
  \<open>mod\<close> on \<open>int\<close>, except that a zero divisor raises.\<close>

definition py_floordiv :: "int \<Rightarrow> int \<Rightarrow> int result" where
  "py_floordiv a b = (if b = 0 then Raise ZeroDivisionError else Ok (a div b))"

definition py_mod :: "int \<Rightarrow> int \<Rightarrow> int result" where
  "py_mod a b = (if b = 0 then Raise ZeroDivisionError else Ok (a mod b))"

subsection \<open>Batch counts\<close>

text \<open>
  \<^verbatim>\<open>
  def _count_batches(self, example_count, batch_size, batches_per_step):
    x = (example_count + batch_size - 1) // batch_size
    return (x + batches_per_step - 1) // batches_per_step * batches_per_step
  \<close>
\<close>

definition count_batches :: "int \<Rightarrow> int \<Rightarrow> int \<Rightarrow> int result" where
  "count_batches example_count batch_size batches_per_step =
     and_then (py_floordiv (example_count + batch_size - 1) batch_size) (\<lambda>x.
     and_then (py_floordiv (x + batches_per_step - 1) batches_per_step) (\<lambda>y.
     Ok (y * batches_per_step)))"

subsection \<open>The shuffle producer\<close>

text \<open>
  Modelled from the spec: \<^verbatim>\<open>stat_utils.AsyncPermuter\<close> is not part of the sources.
  The spec describes it as a black box with \<^verbatim>\<open>start\<close>, a blocking
  \<^verbatim>\<open>get\<close> that hands out the next whole-epoch permutation, and \<^verbatim>\<open>stop_loop\<close>,
  after which \<^verbatim>\<open>get\<close> is undefined. The permutations it will hand out are the
  field \<open>to_produce\<close>; \<^verbatim>\<open>get\<close> waits forever when the producer has not been
  started, has been stopped, or has handed out everything.
\<close>

record async_permuter =
  to_produce :: "int list list"
  started :: bool
  stopped :: bool

definition permuter_start :: "async_permuter \<Rightarrow> async_permuter" where
  "permuter_start p = p\<lparr>started := True\<rparr>"

definition permuter_stop_loop :: "async_permuter \<Rightarrow> async_permuter" where
  "permuter_stop_loop p = p\<lparr>stopped := True\<rparr>"

definition permuter_get :: "async_permuter \<Rightarrow> (int list \<times> async_permuter) result" where
  "permuter_get p =
     (if started p \<and> \<not> stopped p then
        (case to_produce p of
           [] \<Rightarrow> Blocked
         | order # later \<Rightarrow> Ok (order, p\<lparr>to_produce := later\<rparr>))
      else Blocked)"

subsection \<open>The constructor object\<close>

type_synonym batch = "int list \<times> int list \<times> int list"

record data_constructor =
  maximum_number_epochs :: int
  num_users :: int
  num_items :: int
  train_pos_users :: "int list"
  train_pos_items :: "int list"
  train_pos_count :: int
  train_batch_size :: int
  num_train_negatives :: int
  elements_in_epoch :: int
  batches_per_train_step :: int
  train_batches_per_epoch :: int
  eval_pos_users :: "int list"
  eval_pos_items :: "int list"
  eval_batch_size :: int
  eval_users_per_batch :: int
  eval_elements_in_epoch :: int
  eval_batches_per_epoch :: int
  current_epoch_order :: "int list option"
  shuffle_producer :: async_permuter
  training_queue :: "batch list"
  eval_results :: "batch list option"
  stop_loop_flag :: bool
  negative_table :: "int list list option"
  per_user_neg_count :: "int list option"

text \<open>
  What a constructor does to threads, queues and locks, in the order it does it. The
  log is not a field of the Python object: it records which of these actions have
  happened when a call ends.
\<close>

datatype event =
    PermuterCreated int int int
  | QueueCreated
  | LockCreated
  | ThreadInitialised
  | PermuterStarted
  | LookupVariablesConstructed
  | TrainingEpochConstruction bool
  | EvalEpochConstruction

text \<open>
  \<^verbatim>\<open>BaseDataConstructor.__init__\<close> followed by
  \<^verbatim>\<open>MaterializedDataConstructor.__init__\<close>. The first argument is the constant
  \<^verbatim>\<open>rconst.NUM_EVAL_NEGATIVES\<close>, whose module is not part of the sources; the
  second is the sequence of permutations the shuffle producer will draw. The checks
  of lines 76 to 96 all come before the producer, the queue, the lock and the thread
  are created (lines 100 to 111), and nothing is started in the constructor.
\<close>

definition init ::
  "int \<Rightarrow> int list list \<Rightarrow> int \<Rightarrow> int \<Rightarrow> int \<Rightarrow> int list \<Rightarrow> int list \<Rightarrow> int \<Rightarrow> int \<Rightarrow> int \<Rightarrow>
   int list \<Rightarrow> int list \<Rightarrow> int \<Rightarrow> int \<Rightarrow> event list \<times> data_constructor result" where
  "init NUM_EVAL_NEGATIVES permutations maximum_number_epochs' num_users' num_items'
        train_pos_users' train_pos_items' train_batch_size' batches_per_train_step'
        num_train_negatives' eval_pos_users' eval_pos_items' eval_batch_size'
        batches_per_eval_step' =
    (let train_pos_count' = int (length train_pos_users');
         elements_in_epoch' = (1 + num_train_negatives') * train_pos_count';
         eval_elements_in_epoch' = num_users' * (1 + NUM_EVAL_NEGATIVES);
         checked =
           (if length train_pos_users' = length train_pos_items' then
              and_then (count_batches elements_in_epoch' train_batch_size'
                          batches_per_train_step') (\<lambda>train_batches_per_epoch'.
              and_then (py_mod eval_batch_size' (1 + NUM_EVAL_NEGATIVES)) (\<lambda>remainder.
              if remainder = 0 then
                and_then (py_floordiv eval_batch_size' (1 + NUM_EVAL_NEGATIVES))
                  (\<lambda>eval_users_per_batch'.
                and_then (count_batches eval_elements_in_epoch' eval_batch_size'
                            batches_per_eval_step') (\<lambda>eval_batches_per_epoch'.
                Ok \<lparr> maximum_number_epochs = maximum_number_epochs',
                     num_users = num_users',
                     num_items = num_items',
                     train_pos_users = train_pos_users',
                     train_pos_items = train_pos_items',
                     train_pos_count = train_pos_count',
                     train_batch_size = train_batch_size',
                     num_train_negatives = num_train_negatives',
                     elements_in_epoch = elements_in_epoch',
                     batches_per_train_step = batches_per_train_step',
                     train_batches_per_epoch = train_batches_per_epoch',
                     eval_pos_users = eval_pos_users',
                     eval_pos_items = eval_pos_items',
                     eval_batch_size = eval_batch_size',
                     eval_users_per_batch = eval_users_per_batch',
                     eval_elements_in_epoch = eval_elements_in_epoch',
                     eval_batches_per_epoch = eval_batches_per_epoch',
                     current_epoch_order = None,
                     shuffle_producer =
                       \<lparr> to_produce = permutations, started = False, stopped = False \<rparr>,
                     training_queue = [],
                     eval_results = None,
                     stop_loop_flag = False,
                     negative_table = None,
                     per_user_neg_count = None \<rparr>))
              else Raise ValueError))
            else Raise AssertionError)
     in case checked of
          Ok self \<Rightarrow>
            ([PermuterCreated elements_in_epoch' 3 (maximum_number_epochs' + 1),
              QueueCreated, LockCreated, ThreadInitialised], Ok self)
        | Raise e \<Rightarrow> ([], Raise e)
        | Blocked \<Rightarrow> ([], Blocked))"

subsection \<open>Indexing and slicing as numpy and Python do it\<close>

text \<open>
  \<^verbatim>\<open>a[i]\<close>: an index in \<open>[0, n)\<close> reads from the front, one in \<open>[-n, 0)\<close> counts
  from the end, anything else raises \<^verbatim>\<open>IndexError\<close>. \<^verbatim>\<open>a[idx]\<close> with an integer
  array \<open>idx\<close> reads every index and builds a new array.
\<close>

definition np_index :: "'a list \<Rightarrow> int \<Rightarrow> 'a result" where
  "np_index xs i =
     (let n = int (length xs) in
      if 0 \<le> i \<and> i < n then Ok (xs ! nat i)
      else if - n \<le> i \<and> i < 0 then Ok (xs ! nat (i + n))
      else Raise IndexError)"

fun np_take :: "'a list \<Rightarrow> int list \<Rightarrow> 'a list result" where
  "np_take xs [] = Ok []"
| "np_take xs (i # idx) =
     and_then (np_index xs i) (\<lambda>v. and_then (np_take xs idx) (\<lambda>vs. Ok (v # vs)))"

text \<open>
  \<^verbatim>\<open>table[rows, cols]\<close> with two integer arrays pairs them up. Index arrays of
  different lengths raise \<^verbatim>\<open>IndexError\<close> (numpy would first broadcast an array of
  length one; the sampler returns one index per count, so the lengths agree).
\<close>

fun np_take2 :: "'a list list \<Rightarrow> int list \<Rightarrow> int list \<Rightarrow> 'a list result" where
  "np_take2 table [] [] = Ok []"
| "np_take2 table (r # rs) (c # cs) =
     and_then (np_index table r) (\<lambda>row.
     and_then (np_index row c) (\<lambda>v.
     and_then (np_take2 table rs cs) (\<lambda>vs. Ok (v # vs))))"
| "np_take2 table _ _ = Raise IndexError"

text \<open>Slices never raise: a bound is clipped to the length, a negative one counts
  from the end.\<close>

definition slice_bound :: "nat \<Rightarrow> int \<Rightarrow> nat" where
  "slice_bound n k = (if k < 0 then nat (int n + k) else min (nat k) n)"

definition slice_to :: "'a list \<Rightarrow> int \<Rightarrow> 'a list" where
  "slice_to xs b = take (slice_bound (length xs) b) xs"

definition slice_from :: "'a list \<Rightarrow> int \<Rightarrow> 'a list" where
  "slice_from xs a = drop (slice_bound (length xs) a) xs"

definition slice :: "'a list \<Rightarrow> int \<Rightarrow> int \<Rightarrow> 'a list" where
  "slice xs a b =
     take (slice_bound (length xs) b - slice_bound (length xs) a)
       (drop (slice_bound (length xs) a) xs)"

text \<open>\<^verbatim>\<open>np.mod\<close> on integer arrays gives 0 for a zero divisor (with a warning).\<close>

definition np_mod :: "int \<Rightarrow> int \<Rightarrow> int" where
  "np_mod a b = (if b = 0 then 0 else a mod b)"

text \<open>\<^verbatim>\<open>np.delete(arr, obj)\<close> with an integer array \<open>obj\<close>: a copy of \<open>arr\<close>
  without the positions named in \<open>obj\<close> (a position named twice is removed once);
  a position out of bounds raises \<^verbatim>\<open>IndexError\<close>.\<close>

definition np_delete :: "'a list \<Rightarrow> int list \<Rightarrow> 'a list result" where
  "np_delete arr obj =
     (let n = int (length arr) in
      if list_ex (\<lambda>k. k < - n \<or> n \<le> k) obj then Raise IndexError
      else Ok (map (\<lambda>j. arr ! j)
                 (filter (\<lambda>j. int j \<notin> set (map (\<lambda>k. if k < 0 then k + n else k) obj))
                    [0..<length arr])))"

text \<open>\<^verbatim>\<open>row[:count] = vals\<close>: the values must fill the slice exactly, or be a single
  value that is repeated; otherwise numpy raises \<^verbatim>\<open>ValueError\<close>.\<close>

definition assign_prefix :: "'a list \<Rightarrow> int \<Rightarrow> 'a list \<Rightarrow> 'a list result" where
  "assign_prefix row count vals =
     (let stop = slice_bound (length row) count in
      if length vals = stop then Ok (vals @ drop stop row)
      else if length vals = 1 then Ok (replicate stop (hd vals) @ drop stop row)
      else Raise ValueError)"

text \<open>\<^verbatim>\<open>a[mask]\<close> and \<^verbatim>\<open>a[mask] = vals\<close> for a boolean mask as long as \<open>a\<close>.\<close>

definition mask_select :: "'a list \<Rightarrow> bool list \<Rightarrow> 'a list" where
  "mask_select xs flags = map fst (filter snd (zip xs flags))"

fun mask_fill :: "'a list \<Rightarrow> bool list \<Rightarrow> 'a list \<Rightarrow> 'a list" where
  "mask_fill (x # xs) (True # flags) (v # vs) = v # mask_fill xs flags vs"
| "mask_fill (x # xs) (False # flags) vs = x # mask_fill xs flags vs"
| "mask_fill xs _ _ = xs"

definition mask_assign :: "'a list \<Rightarrow> bool list \<Rightarrow> 'a list \<Rightarrow> 'a list result" where
  "mask_assign xs flags vals =
     (let wanted = length (filter id flags) in
      if length vals = wanted then Ok (mask_fill xs flags vals)
      else if length vals = 1 then Ok (mask_fill xs flags (replicate wanted (hd vals)))
      else Raise ValueError)"

subsection \<open>The materialized negative table\<close>

text \<open>
  \<^verbatim>\<open>MaterializedDataConstructor.construct_lookup_variables\<close>. The table has
  dtype \<^verbatim>\<open>uint16\<close> and starts out filled with \<^verbatim>\<open>np.iinfo(np.uint16).max\<close>;
  the assertion keeps every item id below that value, so no entry wraps around.
  One pass of the loop over the users is \<open>construct_row\<close>:
  \<^verbatim>\<open>
      positives = self._train_pos_items[index_bounds[i]:index_bounds[i+1]]
      negatives = np.delete(full_set, positives)
      self._per_user_neg_count[i] = self._num_items - positives.shape[0]
      self._negative_table[i, :self._per_user_neg_count[i]] = negatives
  \<close>
\<close>

definition uint16_max :: int where
  "uint16_max = 65535"

definition construct_row ::
  "int list \<Rightarrow> int list \<Rightarrow> int \<Rightarrow> int list \<Rightarrow> nat \<Rightarrow> int list list \<times> int list \<Rightarrow>
   (int list list \<times> int list) result" where
  "construct_row index_bounds items item_count full_set i acc =
     and_then (np_index index_bounds (int i)) (\<lambda>lower.
     and_then (np_index index_bounds (int i + 1)) (\<lambda>upper.
     let positives = slice items lower upper in
     and_then (np_delete full_set positives) (\<lambda>negatives.
     let count = item_count - int (length positives) in
     and_then (assign_prefix (fst acc ! i) count negatives) (\<lambda>row.
     Ok ((fst acc)[i := row], (snd acc)[i := count])))))"

fun construct_rows ::
  "int list \<Rightarrow> int list \<Rightarrow> int \<Rightarrow> int list \<Rightarrow> nat list \<Rightarrow> int list list \<times> int list \<Rightarrow>
   (int list list \<times> int list) result" where
  "construct_rows index_bounds items item_count full_set [] acc = Ok acc"
| "construct_rows index_bounds items item_count full_set (i # rest) acc =
     and_then (construct_row index_bounds items item_count full_set i acc)
       (construct_rows index_bounds items item_count full_set rest)"

definition construct_lookup_variables :: "data_constructor \<Rightarrow> data_constructor result" where
  "construct_lookup_variables self =
     (let users = train_pos_users self;
          inner_bounds =
            map (\<lambda>i. int i + 1)
              (filter (\<lambda>i. users ! (i + 1) - users ! i \<noteq> 0) [0..<length users - 1]);
          index_bounds = [0] @ inner_bounds @ [num_users self]
      in if num_users self < 0 \<or> num_items self < 0 then Raise ValueError
         else if num_items self < uint16_max then
           (let table = replicate (nat (num_users self))
                          (replicate (nat (num_items self)) uint16_max);
                full_set = map int [0..<nat (num_items self)];
                counts = replicate (nat (num_users self)) 0
            in and_then
                 (construct_rows index_bounds (train_pos_items self) (num_items self) full_set
                    [0..<nat (num_users self)] (table, counts))
                 (\<lambda>built. Ok (self\<lparr>negative_table := Some (fst built),
                                     per_user_neg_count := Some (snd built)\<rparr>)))
         else Raise AssertionError)"

text \<open>
  \<^verbatim>\<open>MaterializedDataConstructor.lookup_negative_items\<close>. The sampler
  \<^verbatim>\<open>stat_utils.slightly_biased_randint\<close> is random and not part of the sources: it
  is the first argument, a function from the array of counts to the array of drawn
  indices. Subscripting \<^verbatim>\<open>None\<close> (the table before it is built) raises
  \<^verbatim>\<open>TypeError\<close>.
\<close>

definition lookup_negative_items ::
  "(int list \<Rightarrow> int list) \<Rightarrow> data_constructor \<Rightarrow> int list \<Rightarrow> int list result" where
  "lookup_negative_items slightly_biased_randint self negative_users =
     (case per_user_neg_count self of
        None \<Rightarrow> Raise TypeError
      | Some counts \<Rightarrow>
          and_then (np_take counts negative_users) (\<lambda>user_counts.
          let negative_item_choice = slightly_biased_randint user_counts in
          (case negative_table self of
             None \<Rightarrow> Raise TypeError
           | Some table \<Rightarrow> np_take2 table negative_users negative_item_choice)))"

subsection \<open>Training batches\<close>

text \<open>
  \<^verbatim>\<open>_get_order_chunk\<close>, which runs under the lock and so as one step:
  \<^verbatim>\<open>
      if self._current_epoch_order is None:
        self._current_epoch_order = self._shuffle_producer.get()
      batch_indices = self._current_epoch_order[:self._train_batch_size]
      self._current_epoch_order = self._current_epoch_order[self._train_batch_size:]
      if not self._current_epoch_order.shape[0]:
        self._current_epoch_order = self._shuffle_producer.get()
      num_extra = self._train_batch_size - batch_indices.shape[0]
      if num_extra:
        batch_indices = np.concatenate([batch_indices,
                                        self._current_epoch_order[:num_extra]])
        self._current_epoch_order = self._current_epoch_order[num_extra:]
      return batch_indices
  \<close>
\<close>

definition current_order :: "data_constructor \<Rightarrow> (int list \<times> data_constructor) result" where
  "current_order self =
     (case current_epoch_order self of
        Some order \<Rightarrow> Ok (order, self)
      | None \<Rightarrow>
          and_then (permuter_get (shuffle_producer self)) (\<lambda>got.
          Ok (fst got, self\<lparr>shuffle_producer := snd got\<rparr>)))"

definition refill_order ::
  "int list \<Rightarrow> data_constructor \<Rightarrow> (int list \<times> data_constructor) result" where
  "refill_order order self =
     (if length order = 0 then
        and_then (permuter_get (shuffle_producer self)) (\<lambda>got.
        Ok (fst got, self\<lparr>shuffle_producer := snd got\<rparr>))
      else Ok (order, self))"

definition get_order_chunk :: "data_constructor \<Rightarrow> (int list \<times> data_constructor) result" where
  "get_order_chunk self =
     and_then (current_order self) (\<lambda>first.
     let batch_indices = slice_to (fst first) (train_batch_size self);
         remaining = slice_from (fst first) (train_batch_size self)
     in and_then (refill_order remaining (snd first)) (\<lambda>second.
        let num_extra = train_batch_size self - int (length batch_indices) in
        if num_extra \<noteq> 0 then
          Ok (batch_indices @ slice_to (fst second) num_extra,
              (snd second)\<lparr>current_epoch_order := Some (slice_from (fst second) num_extra)\<rparr>)
        else
          Ok (batch_indices, (snd second)\<lparr>current_epoch_order := Some (fst second)\<rparr>)))"

text \<open>
  \<^verbatim>\<open>_get_training_batch\<close>. \<^verbatim>\<open>self._train_pos_items[batch_ind_mod]\<close> indexes with
  an integer array, which builds a new array; the negatives are written into that
  array. The finished batch goes to the end of the queue.
\<close>

definition get_training_batch ::
  "(int list \<Rightarrow> int list) \<Rightarrow> data_constructor \<Rightarrow> data_constructor result" where
  "get_training_batch slightly_biased_randint self =
     and_then (get_order_chunk self) (\<lambda>chunk.
     let batch_indices = fst chunk;
         self1 = snd chunk;
         batch_ind_mod = map (\<lambda>k. np_mod k (train_pos_count self1)) batch_indices
     in and_then (np_take (train_pos_users self1) batch_ind_mod) (\<lambda>users.
        let negative_indices = map (\<lambda>k. train_pos_count self1 \<le> k) batch_indices;
            negative_users = mask_select users negative_indices
        in and_then (lookup_negative_items slightly_biased_randint self1 negative_users)
             (\<lambda>negative_items.
           and_then (np_take (train_pos_items self1) batch_ind_mod) (\<lambda>items.
           and_then (mask_assign items negative_indices negative_items) (\<lambda>items'.
           let labels = map (\<lambda>negative. if negative then 0 else 1) negative_indices
           in Ok (self1\<lparr>training_queue :=
                           training_queue self1 @ [(users, items', labels)]\<rparr>))))))"

text \<open>
  \<^verbatim>\<open>_construct_training_epoch\<close> maps \<^verbatim>\<open>_get_training_batch\<close> over
  \<^verbatim>\<open>range(self._train_batches_per_epoch)\<close> on a pool of six threads. Every call
  takes its chunk under the lock; the model runs the calls one after another in index
  order, which is one of the schedules of the pool. \<open>draws k\<close> is what the sampler
  does in the call for batch \<open>k\<close>.
\<close>

fun training_batches ::
  "(nat \<Rightarrow> int list \<Rightarrow> int list) \<Rightarrow> nat list \<Rightarrow> data_constructor \<Rightarrow> data_constructor result" where
  "training_batches draws [] self = Ok self"
| "training_batches draws (k # later) self =
     and_then (get_training_batch (draws k) self) (training_batches draws later)"

definition construct_training_epoch ::
  "(nat \<Rightarrow> int list \<Rightarrow> int list) \<Rightarrow> data_constructor \<Rightarrow> data_constructor result" where
  "construct_training_epoch draws self =
     training_batches draws [0..<nat (train_batches_per_epoch self)] self"

subsection \<open>Evaluation batches\<close>

text \<open>
  Modelled from the spec: \<^verbatim>\<open>stat_utils.mask_duplicates\<close> is not part of the
  sources. Section 6 of the spec gives its contract: the mask is true at position
  \<open>(r, c)\<close> exactly when \<open>rows[r, c]\<close> equals another entry earlier in row \<open>r\<close>.
  The mask is kept as 0 and 1.
\<close>

definition mask_duplicates_row :: "int list \<Rightarrow> int list" where
  "mask_duplicates_row row =
     map (\<lambda>c. if row ! c \<in> set (take c row) then 1 else 0) [0..<length row]"

definition mask_duplicates :: "int list list \<Rightarrow> int list list" where
  "mask_duplicates rows = map mask_duplicates_row rows"

text \<open>\<^verbatim>\<open>a[:, (0, -1)] = a[:, (-1, 0)]\<close> on one row: the right-hand side is a copy,
  so the first and the last entry change places.\<close>

definition swap_first_last :: "'a list \<Rightarrow> 'a list" where
  "swap_first_last row = row[0 := last row, length row - 1 := hd row]"

text \<open>\<^verbatim>\<open>a.reshape(-1, n)\<close> of a flat array, for \<open>n > 0\<close>.\<close>

definition reshape_rows :: "nat \<Rightarrow> 'a list \<Rightarrow> 'a list list result" where
  "reshape_rows n xs =
     (if length xs mod n = 0 then
        Ok (map (\<lambda>r. take n (drop (r * n) xs)) [0..<length xs div n])
      else Raise ValueError)"

text \<open>
  \<^verbatim>\<open>_get_eval_batch\<close>. The first argument is again
  \<^verbatim>\<open>rconst.NUM_EVAL_NEGATIVES\<close>. \<^verbatim>\<open>np.repeat\<close> refuses a negative count and
  \<^verbatim>\<open>reshape(-1, n)\<close> refuses \<open>n \<le> 0\<close>; \<^verbatim>\<open>np.concatenate\<close> along axis 1 needs
  as many positives as rows of negatives. The returned arrays are the flattened
  matrices, row after row.
\<close>

definition get_eval_batch ::
  "int \<Rightarrow> (int list \<Rightarrow> int list) \<Rightarrow> data_constructor \<Rightarrow> int \<Rightarrow> batch result" where
  "get_eval_batch NUM_EVAL_NEGATIVES slightly_biased_randint self i =
     (let low_index = i * eval_users_per_batch self;
          high_index = (i + 1) * eval_users_per_batch self;
          width = nat (1 + NUM_EVAL_NEGATIVES)
      in if 1 + NUM_EVAL_NEGATIVES < 0 then Raise ValueError
         else
          (let users = map (replicate width)
                         (slice (eval_pos_users self) low_index high_index);
               positives = slice (eval_pos_items self) low_index high_index
           in and_then
                (lookup_negative_items slightly_biased_randint self
                   (concat (map butlast users))) (\<lambda>negatives.
              if NUM_EVAL_NEGATIVES \<le> 0 then Raise ValueError
              else
                and_then (reshape_rows (nat NUM_EVAL_NEGATIVES) negatives) (\<lambda>negative_rows.
                if length positives = length negative_rows then
                  (let items = map (\<lambda>pair. fst pair # snd pair) (zip positives negative_rows);
                       duplicate_mask = mask_duplicates items;
                       items' = map swap_first_last items;
                       duplicate_mask' = map swap_first_last duplicate_mask;
                       pad_rows = nat (eval_users_per_batch self - int (length users));
                       padding = replicate pad_rows (replicate width 0)
                   in Ok (concat (users @ padding),
                          concat (items' @ padding),
                          concat (duplicate_mask' @ padding)))
                else Raise ValueError))))"

text \<open>\<^verbatim>\<open>_construct_eval_epoch\<close>: \<^verbatim>\<open>pool.map\<close> keeps the results in index order.\<close>

fun eval_batches ::
  "int \<Rightarrow> (nat \<Rightarrow> int list \<Rightarrow> int list) \<Rightarrow> data_constructor \<Rightarrow> nat list \<Rightarrow> batch list result" where
  "eval_batches NUM_EVAL_NEGATIVES draws self [] = Ok []"
| "eval_batches NUM_EVAL_NEGATIVES draws self (k # later) =
     and_then (get_eval_batch NUM_EVAL_NEGATIVES (draws k) self (int k)) (\<lambda>b.
     and_then (eval_batches NUM_EVAL_NEGATIVES draws self later) (\<lambda>bs. Ok (b # bs)))"

definition construct_eval_epoch ::
  "int \<Rightarrow> (nat \<Rightarrow> int list \<Rightarrow> int list) \<Rightarrow> data_constructor \<Rightarrow> data_constructor result" where
  "construct_eval_epoch NUM_EVAL_NEGATIVES draws self =
     and_then
       (eval_batches NUM_EVAL_NEGATIVES draws self [0..<nat (eval_batches_per_epoch self)])
       (\<lambda>results. Ok (self\<lparr>eval_results := Some results\<rparr>))"

subsection \<open>The thread body and its stop flag\<close>

text \<open>
  \<^verbatim>\<open>
  def stop_loop(self):
    self._shuffle_producer.stop_loop()
    self._stop_loop = True
  \<close>
\<close>

definition stop_loop :: "data_constructor \<Rightarrow> data_constructor" where
  "stop_loop self =
     self\<lparr>shuffle_producer := permuter_stop_loop (shuffle_producer self),
          stop_loop_flag := True\<rparr>"

text \<open>\<^verbatim>\<open>self._shuffle_producer.start()\<close>, the first statement of \<^verbatim>\<open>run\<close>.\<close>

definition start_producer :: "data_constructor \<Rightarrow> data_constructor" where
  "start_producer self = self\<lparr>shuffle_producer := permuter_start (shuffle_producer self)\<rparr>"

text \<open>
  \<^verbatim>\<open>
  def run(self):
    self._shuffle_producer.start()
    self.construct_lookup_variables()
    self._construct_training_epoch()
    self._construct_eval_epoch()
    for _ in range(self._maximum_number_epochs - 1):
      self._construct_training_epoch()
  \<close>
  Another thread may call \<^verbatim>\<open>stop_loop\<close> while \<^verbatim>\<open>run\<close> is between two epochs:
  \<open>stop_requested k\<close> says whether it does so just before training epoch number
  \<open>k\<close> (counted from 0) would start. \<open>run_epochs\<close> is the sequence of calls of
  \<^verbatim>\<open>_construct_training_epoch\<close>; each is logged when it begins, together with the
  value the flag has at that moment. The log is returned also when the run ends in an
  exception or waits forever.
\<close>

definition between_epochs :: "(nat \<Rightarrow> bool) \<Rightarrow> nat \<Rightarrow> data_constructor \<Rightarrow> data_constructor" where
  "between_epochs stop_requested k self = (if stop_requested k then stop_loop self else self)"

fun run_epochs ::
  "(nat \<Rightarrow> bool) \<Rightarrow> (nat \<Rightarrow> nat \<Rightarrow> int list \<Rightarrow> int list) \<Rightarrow> nat \<Rightarrow> nat \<Rightarrow>
   event list \<times> data_constructor \<Rightarrow> event list \<times> data_constructor result" where
  "run_epochs stop_requested draws k 0 state = (fst state, Ok (snd state))"
| "run_epochs stop_requested draws k (Suc n) state =
     (let self1 = between_epochs stop_requested k (snd state);
          events1 = fst state @ [TrainingEpochConstruction (stop_loop_flag self1)]
      in case construct_training_epoch (draws k) self1 of
           Ok self2 \<Rightarrow> run_epochs stop_requested draws (Suc k) n (events1, self2)
         | Raise e \<Rightarrow> (events1, Raise e)
         | Blocked \<Rightarrow> (events1, Blocked))"

definition run ::
  "int \<Rightarrow> (nat \<Rightarrow> bool) \<Rightarrow> (nat \<Rightarrow> nat \<Rightarrow> int list \<Rightarrow> int list) \<Rightarrow>
   (nat \<Rightarrow> int list \<Rightarrow> int list) \<Rightarrow> data_constructor \<Rightarrow> event list \<times> data_constructor result" where
  "run NUM_EVAL_NEGATIVES stop_requested train_draws eval_draws self =
     (let self0 = start_producer self in
      case construct_lookup_variables self0 of
        Raise e \<Rightarrow> ([PermuterStarted], Raise e)
      | Blocked \<Rightarrow> ([PermuterStarted], Blocked)
      | Ok self1 \<Rightarrow>
         (case run_epochs stop_requested train_draws 0 1
                 ([PermuterStarted, LookupVariablesConstructed], self1) of
            (events2, Raise e) \<Rightarrow> (events2, Raise e)
          | (events2, Blocked) \<Rightarrow> (events2, Blocked)
          | (events2, Ok self2) \<Rightarrow>
             (case construct_eval_epoch NUM_EVAL_NEGATIVES eval_draws self2 of
                Raise e \<Rightarrow> (events2 @ [EvalEpochConstruction], Raise e)
              | Blocked \<Rightarrow> (events2 @ [EvalEpochConstruction], Blocked)
              | Ok self3 \<Rightarrow>
                  run_epochs stop_requested train_draws 1
                    (nat (maximum_number_epochs self3 - 1))
                    (events2 @ [EvalEpochConstruction], self3))))"

subsection \<open>Successive calls and concrete inputs\<close>

text \<open>\<open>order_chunks n\<close> is \<open>n\<close> calls of \<^verbatim>\<open>_get_order_chunk\<close> one after another,
  with the chunks they return.\<close>

fun order_chunks :: "nat \<Rightarrow> data_constructor \<Rightarrow> (int list list \<times> data_constructor) result" where
  "order_chunks 0 self = Ok ([], self)"
| "order_chunks (Suc n) self =
     and_then (get_order_chunk self) (\<lambda>first.
     and_then (order_chunks n (snd first)) (\<lambda>later.
     Ok (fst first # fst later, snd later)))"

text \<open>What is left of the index stream: the rest of the current permutation, then the
  permutations the producer has not handed out yet.\<close>

definition order_stream :: "data_constructor \<Rightarrow> int list" where
  "order_stream self =
     (case current_epoch_order self of None \<Rightarrow> [] | Some order \<Rightarrow> order)
     @ concat (to_produce (shuffle_producer self))"

text \<open>The state in which \<^verbatim>\<open>_get_order_chunk\<close> is called while the pipeline runs:
  the producer is running, a batch is not larger than an epoch, every permutation
  has the epoch's length, and the current order, once fetched, is never left empty.\<close>

definition chunk_ready :: "data_constructor \<Rightarrow> bool" where
  "chunk_ready self =
     (started (shuffle_producer self) \<and> \<not> stopped (shuffle_producer self)
      \<and> 0 < train_batch_size self \<and> train_batch_size self \<le> elements_in_epoch self
      \<and> list_all (\<lambda>order. int (length order) = elements_in_epoch self)
            (to_produce (shuffle_producer self))
      \<and> (case current_epoch_order self of None \<Rightarrow> True | Some order \<Rightarrow> order \<noteq> []))"

text \<open>The indices the next call of \<^verbatim>\<open>_get_order_chunk\<close> is due: the first
  \<open>train_batch_size\<close> entries of the index stream.\<close>

definition next_indices :: "data_constructor \<Rightarrow> int list" where
  "next_indices self = take (nat (train_batch_size self)) (order_stream self)"

text \<open>Two users and four items; user 0 has the training positives 0 and 1, user 1 has
  2 and 3.\<close>

definition two_user_example :: "data_constructor result" where
  "two_user_example =
     snd (init 1 [[0, 1, 2, 3, 4, 5, 6, 7], [7, 6, 5, 4, 3, 2, 1, 0]]
            1 2 4 [0, 0, 1, 1] [0, 1, 2, 3] 2 1 1 [0, 1] [2, 0] 4 1)"

text \<open>Two users with one training positive each, three epochs, batches of one.\<close>

definition three_epoch_example :: "data_constructor result" where
  "three_epoch_example =
     snd (init 2 [[0, 1], [1, 0], [0, 1], [1, 0]] 3 2 3 [0, 1] [0, 0] 1 1 0 [0, 1] [1, 2] 6 1)"

text \<open>Three epochs of two batches of two over an epoch of four indices, with the
  producer started; it holds four permutations, one more than there are epochs.\<close>

definition tiling_example :: "data_constructor result" where
  "tiling_example =
     and_then (snd (init 1 [[0, 1, 2, 3], [3, 2, 1, 0], [1, 0, 3, 2], [0, 1, 2, 3]]
                      3 2 3 [0, 1] [0, 1] 2 1 1 [0, 1] [1, 2] 4 1))
       (\<lambda>self. Ok (start_producer self))"

text \<open>One training positive and one negative per positive, so an epoch has two
  indices; the batch size is five.\<close>

definition big_batch_example :: "data_constructor result" where
  "big_batch_example =
     and_then (snd (init 1 [[0, 1], [1, 0], [0, 1]] 2 1 3 [0] [0] 5 1 1 [0] [1] 2 1))
       (\<lambda>self. Ok (start_producer self))"

text \<open>A sampler that always draws index 0.\<close>

definition first_index :: "int list \<Rightarrow> int list" where
  "first_index counts = map (\<lambda>c. 0) counts"

text \<open>Three training positives and no training negatives, so an epoch has three
  indices, in batches of two: the second batch of an epoch is the ragged one. The
  producer is started and the table is built, as in \<^verbatim>\<open>run\<close>.\<close>

definition ragged_example :: "data_constructor result" where
  "ragged_example =
     and_then (snd (init 1 [[0, 1, 2], [2, 0, 1], [0, 1, 2]] 2 2 4 [0, 1, 1] [1, 2, 3] 2 1 0
                      [0, 1] [0, 0] 4 1))
       (\<lambda>self. construct_lookup_variables (start_producer self))"

text \<open>A sampler that always draws index 1.\<close>

definition second_index :: "int list \<Rightarrow> int list" where
  "second_index counts = map (\<lambda>c. 1) counts"

text \<open>Three training positives and one training negative per positive, so an epoch
  has six indices (3, 4 and 5 are the negatives), in batches of four: the second batch
  of an epoch is the ragged one. User 0 has the negatives 0, 2, 3 in its table row and
  user 1 has 0, 1, 3. The producer is started and the table is built, as in
  \<^verbatim>\<open>run\<close>.\<close>

definition spill_example :: "data_constructor result" where
  "spill_example =
     and_then (snd (init 1 [[0, 3, 1, 4, 2, 5], [2, 5, 0, 3, 1, 4], [0, 1, 2, 3, 4, 5]]
                      2 2 4 [0, 1, 1] [1, 2, 3] 4 1 1 [0, 1] [0, 0] 4 1))
       (\<lambda>self. construct_lookup_variables (start_producer self))"

text \<open>The same constructor after its first training batch: the indices 2 and 5 are
  what is left of the first permutation.\<close>

definition spill_second_call :: "data_constructor result" where
  "spill_second_call = and_then spill_example (get_training_batch second_index)"

text \<open>\<open>three_epoch_example\<close> with the producer started and the table built. Both
  users have the negatives 1 and 2; the held-out positives are 1 and 2. The sampler
  draws the indices 0, 1 for user 0 and 1, 0 for user 1, so each user's first sampled
  negative is the held-out positive.\<close>

definition collision_example :: "data_constructor result" where
  "collision_example =
     and_then three_epoch_example (\<lambda>self. construct_lookup_variables (start_producer self))"

definition colliding_draws :: "int list \<Rightarrow> int list" where
  "colliding_draws counts = [0, 1, 1, 0]"

subsection \<open>The same operations on arrays in a store\<close>

text \<open>
  Whether an operation changes an existing array depends on which numpy expressions
  make a new array and which share the buffer of an old one. In this second embedding
  of the batch operations every array lives in a store. An array object is a reference:
  the address of its buffer and the part of the buffer it shows. A basic slice
  (\<^verbatim>\<open>a[:n]\<close>, \<^verbatim>\<open>a[n:]\<close>) is a view on the same buffer; indexing with an integer or
  boolean array, \<^verbatim>\<open>np.mod\<close>, \<^verbatim>\<open>np.greater_equal\<close>, \<^verbatim>\<open>np.logical_not\<close>,
  \<^verbatim>\<open>np.concatenate\<close>, \<^verbatim>\<open>np.repeat\<close>, \<^verbatim>\<open>np.zeros\<close>, \<^verbatim>\<open>flatten\<close> and the
  two helpers of \<^verbatim>\<open>stat_utils\<close> return a new array; an assignment
  \<^verbatim>\<open>a[...] = v\<close> writes into the buffer behind \<^verbatim>\<open>a\<close>. A view or a temporary that is
  only read and bound to no variable is read in place. The contents are computed with
  the same functions as above.
\<close>

text \<open>A buffer holds a vector or a matrix (as rows); an address is a position in the
  store, and a new buffer goes to the end.\<close>

datatype ndarray = Vector "int list" | Matrix "int list list"

type_synonym store = "ndarray list"

record array_ref =
  buffer :: nat
  first :: nat
  extent :: nat

text \<open>Reading shows the part of the buffer the reference covers; writing replaces
  that part of the buffer, for everyone who shares it.\<close>

definition read_vector :: "store \<Rightarrow> array_ref \<Rightarrow> int list" where
  "read_vector h r =
     (if buffer r < length h then
        (case h ! buffer r of
           Vector xs \<Rightarrow> take (extent r) (drop (first r) xs)
         | Matrix rows \<Rightarrow> [])
      else [])"

definition write_vector :: "store \<Rightarrow> array_ref \<Rightarrow> int list \<Rightarrow> store" where
  "write_vector h r vals =
     (if buffer r < length h then
        (case h ! buffer r of
           Vector xs \<Rightarrow>
             h[buffer r := Vector (take (first r) xs @ vals @ drop (first r + extent r) xs)]
         | Matrix rows \<Rightarrow> h)
      else h)"

definition new_vector :: "store \<Rightarrow> int list \<Rightarrow> store \<times> array_ref result" where
  "new_vector h xs = (h @ [Vector xs], Ok \<lparr>buffer = length h, first = 0, extent = length xs\<rparr>)"

text \<open>\<^verbatim>\<open>a[:b]\<close> and \<^verbatim>\<open>a[a:]\<close> as views.\<close>

definition view_to :: "array_ref \<Rightarrow> int \<Rightarrow> array_ref" where
  "view_to r b = r\<lparr>extent := slice_bound (extent r) b\<rparr>"

definition view_from :: "array_ref \<Rightarrow> int \<Rightarrow> array_ref" where
  "view_from r a =
     r\<lparr>first := first r + slice_bound (extent r) a,
       extent := extent r - slice_bound (extent r) a\<rparr>"

definition read_matrix :: "store \<Rightarrow> nat \<Rightarrow> int list list" where
  "read_matrix h a =
     (if a < length h then (case h ! a of Matrix rows \<Rightarrow> rows | Vector xs \<Rightarrow> []) else [])"

definition write_matrix :: "store \<Rightarrow> nat \<Rightarrow> int list list \<Rightarrow> store" where
  "write_matrix h a rows = (if a < length h then h[a := Matrix rows] else h)"

definition new_matrix :: "store \<Rightarrow> int list list \<Rightarrow> store \<times> nat result" where
  "new_matrix h rows = (h @ [Matrix rows], Ok (length h))"

text \<open>Sequencing: the store is threaded through, and it is kept when a step raises
  or waits forever.\<close>

fun then_in_store ::
  "store \<times> 'a result \<Rightarrow> (store \<Rightarrow> 'a \<Rightarrow> store \<times> 'b result) \<Rightarrow> store \<times> 'b result" where
  "then_in_store (h, Ok v) f = f h v"
| "then_in_store (h, Raise e) f = (h, Raise e)"
| "then_in_store (h, Blocked) f = (h, Blocked)"

text \<open>The constructor after the build phase, with references in place of the arrays
  (the fields the batch operations use).\<close>

record constructor_refs =
  train_pos_users_ref :: array_ref
  train_pos_items_ref :: array_ref
  eval_pos_users_ref :: array_ref
  eval_pos_items_ref :: array_ref
  negative_table_ref :: nat
  per_user_neg_count_ref :: array_ref
  current_epoch_order_ref :: "array_ref option"
  shuffle_producer_ref :: async_permuter
  training_queue_refs :: "(array_ref \<times> array_ref \<times> array_ref) list"
  train_pos_count_val :: int
  train_batch_size_val :: int
  eval_users_per_batch_val :: int

definition lookup_negative_items_in_store ::
  "(int list \<Rightarrow> int list) \<Rightarrow> constructor_refs \<Rightarrow> store \<Rightarrow> array_ref \<Rightarrow> store \<times> array_ref result" where
  "lookup_negative_items_in_store slightly_biased_randint self h negative_users =
     then_in_store
       (h, np_take (read_vector h (per_user_neg_count_ref self)) (read_vector h negative_users))
       (\<lambda>h counts.
     then_in_store (new_vector h counts) (\<lambda>h user_counts.
     then_in_store (new_vector h (slightly_biased_randint (read_vector h user_counts)))
       (\<lambda>h negative_item_choice.
     then_in_store
       (h, np_take2 (read_matrix h (negative_table_ref self)) (read_vector h negative_users)
             (read_vector h negative_item_choice))
       (\<lambda>h chosen. new_vector h chosen))))"

definition order_from_producer ::
  "constructor_refs \<Rightarrow> store \<Rightarrow> store \<times> (array_ref \<times> constructor_refs) result" where
  "order_from_producer self h =
     then_in_store (h, permuter_get (shuffle_producer_ref self)) (\<lambda>h got.
     then_in_store (new_vector h (fst got)) (\<lambda>h order.
     (h, Ok (order, self\<lparr>shuffle_producer_ref := snd got\<rparr>))))"

definition get_order_chunk_in_store ::
  "constructor_refs \<Rightarrow> store \<Rightarrow> store \<times> (array_ref \<times> constructor_refs) result" where
  "get_order_chunk_in_store self h =
     then_in_store
       (case current_epoch_order_ref self of
          Some order \<Rightarrow> (h, Ok (order, self))
        | None \<Rightarrow> order_from_producer self h) (\<lambda>h first_order.
     let batch_indices = view_to (fst first_order) (train_batch_size_val self);
         remaining = view_from (fst first_order) (train_batch_size_val self)
     in then_in_store
          (if extent remaining = 0 then order_from_producer (snd first_order) h
           else (h, Ok (remaining, snd first_order))) (\<lambda>h second.
        let num_extra = train_batch_size_val self - int (extent batch_indices) in
        if num_extra \<noteq> 0 then
          then_in_store
            (new_vector h (read_vector h batch_indices
                           @ read_vector h (view_to (fst second) num_extra))) (\<lambda>h joined.
          (h, Ok (joined,
                  (snd second)\<lparr>current_epoch_order_ref :=
                                  Some (view_from (fst second) num_extra)\<rparr>)))
        else
          (h, Ok (batch_indices, (snd second)\<lparr>current_epoch_order_ref := Some (fst second)\<rparr>))))"

definition get_training_batch_in_store ::
  "(int list \<Rightarrow> int list) \<Rightarrow> constructor_refs \<Rightarrow> store \<Rightarrow> store \<times> constructor_refs result" where
  "get_training_batch_in_store slightly_biased_randint self h =
     then_in_store (get_order_chunk_in_store self h) (\<lambda>h chunk.
     let batch_indices = fst chunk; self1 = snd chunk in
     then_in_store
       (new_vector h (map (\<lambda>k. np_mod k (train_pos_count_val self1))
                        (read_vector h batch_indices))) (\<lambda>h batch_ind_mod.
     then_in_store
       (h, np_take (read_vector h (train_pos_users_ref self1)) (read_vector h batch_ind_mod))
       (\<lambda>h taken_users.
     then_in_store (new_vector h taken_users) (\<lambda>h users.
     then_in_store
       (new_vector h (map (\<lambda>k. if train_pos_count_val self1 \<le> k then 1 else 0)
                        (read_vector h batch_indices))) (\<lambda>h negative_indices.
     then_in_store
       (new_vector h (mask_select (read_vector h users)
                        (map (\<lambda>b. b \<noteq> 0) (read_vector h negative_indices))))
       (\<lambda>h negative_users.
     then_in_store (lookup_negative_items_in_store slightly_biased_randint self1 h negative_users)
       (\<lambda>h negative_items.
     then_in_store
       (h, np_take (read_vector h (train_pos_items_ref self1)) (read_vector h batch_ind_mod))
       (\<lambda>h taken_items.
     then_in_store (new_vector h taken_items) (\<lambda>h items.
     then_in_store
       (h, mask_assign (read_vector h items)
             (map (\<lambda>b. b \<noteq> 0) (read_vector h negative_indices))
             (read_vector h negative_items)) (\<lambda>h assigned.
     then_in_store (write_vector h items assigned, Ok ()) (\<lambda>h done.
     then_in_store
       (new_vector h (map (\<lambda>b. if b \<noteq> 0 then 0 else 1) (read_vector h negative_indices)))
       (\<lambda>h labels.
     (h, Ok (self1\<lparr>training_queue_refs :=
                      training_queue_refs self1 @ [(users, items, labels)]\<rparr>))))))))))))))"

definition get_eval_batch_in_store ::
  "int \<Rightarrow> (int list \<Rightarrow> int list) \<Rightarrow> constructor_refs \<Rightarrow> store \<Rightarrow> int \<Rightarrow>
   store \<times> (array_ref \<times> array_ref \<times> array_ref) result" where
  "get_eval_batch_in_store NUM_EVAL_NEGATIVES slightly_biased_randint self h i =
     (let low_index = i * eval_users_per_batch_val self;
          high_index = (i + 1) * eval_users_per_batch_val self;
          width = nat (1 + NUM_EVAL_NEGATIVES)
      in if 1 + NUM_EVAL_NEGATIVES < 0 then (h, Raise ValueError)
         else
          then_in_store
            (new_matrix h (map (replicate width)
               (slice (read_vector h (eval_pos_users_ref self)) low_index high_index)))
            (\<lambda>h users.
          then_in_store (new_vector h (concat (map butlast (read_matrix h users))))
            (\<lambda>h negative_users.
          then_in_store
            (lookup_negative_items_in_store slightly_biased_randint self h negative_users)
            (\<lambda>h negatives.
          if NUM_EVAL_NEGATIVES \<le> 0 then (h, Raise ValueError)
          else
            then_in_store
              (h, reshape_rows (nat NUM_EVAL_NEGATIVES) (read_vector h negatives))
              (\<lambda>h negative_rows.
            let positives = slice (read_vector h (eval_pos_items_ref self)) low_index high_index
            in if length positives = length negative_rows then
              then_in_store
                (new_matrix h (map (\<lambda>pair. fst pair # snd pair) (zip positives negative_rows)))
                (\<lambda>h items.
              then_in_store (new_matrix h (mask_duplicates (read_matrix h items)))
                (\<lambda>h duplicate_mask.
              then_in_store
                (write_matrix h items (map swap_first_last (read_matrix h items)), Ok ())
                (\<lambda>h done.
              then_in_store
                (write_matrix h duplicate_mask
                   (map swap_first_last (read_matrix h duplicate_mask)), Ok ())
                (\<lambda>h done.
              let pad_rows = nat (eval_users_per_batch_val self
                                  - int (length (read_matrix h users)))
              in then_in_store
                   (if 0 < pad_rows then
                      then_in_store (new_matrix h (replicate pad_rows (replicate width 0)))
                        (\<lambda>h padding.
                      then_in_store
                        (new_matrix h (read_matrix h users @ read_matrix h padding))
                        (\<lambda>h users'.
                      then_in_store
                        (new_matrix h (read_matrix h items @ read_matrix h padding))
                        (\<lambda>h items'.
                      then_in_store
                        (new_matrix h (read_matrix h duplicate_mask @ read_matrix h padding))
                        (\<lambda>h duplicate_mask'.
                      (h, Ok (users', items', duplicate_mask'))))))
                    else (h, Ok (users, items, duplicate_mask)))
                   (\<lambda>h padded.
                 then_in_store (new_vector h (concat (read_matrix h (fst padded))))
                   (\<lambda>h flat_users.
                 then_in_store (new_vector h (concat (read_matrix h (fst (snd padded)))))
                   (\<lambda>h flat_items.
                 then_in_store (new_vector h (concat (read_matrix h (snd (snd padded)))))
                   (\<lambda>h flat_mask.
                 (h, Ok (flat_users, flat_items, flat_mask))))))))))
            else (h, Raise ValueError))))))"

text \<open>Every buffer of the store \<open>h\<close> is still there in \<open>h'\<close> with the same
  contents.\<close>

definition unchanged :: "store \<Rightarrow> store \<Rightarrow> bool" where
  "unchanged h h' = (take (length h) h' = h)"

text \<open>A constructor of the first embedding laid out in a store: the six arrays at the
  addresses 0 to 5, then the current epoch order if there is one.\<close>

definition whole :: "nat \<Rightarrow> 'a list \<Rightarrow> array_ref" where
  "whole a xs = \<lparr>buffer = a, first = 0, extent = length xs\<rparr>"

definition in_store :: "data_constructor \<Rightarrow> store \<times> constructor_refs" where
  "in_store self =
     (let table = (case negative_table self of Some rows \<Rightarrow> rows | None \<Rightarrow> []);
          counts = (case per_user_neg_count self of Some xs \<Rightarrow> xs | None \<Rightarrow> [])
      in ([Vector (train_pos_users self), Vector (train_pos_items self),
           Vector (eval_pos_users self), Vector (eval_pos_items self),
           Matrix table, Vector counts]
          @ (case current_epoch_order self of Some order \<Rightarrow> [Vector order] | None \<Rightarrow> []),
          \<lparr> train_pos_users_ref = whole 0 (train_pos_users self),
            train_pos_items_ref = whole 1 (train_pos_items self),
            eval_pos_users_ref = whole 2 (eval_pos_users self),
            eval_pos_items_ref = whole 3 (eval_pos_items self),
            negative_table_ref = 4,
            per_user_neg_count_ref = whole 5 counts,
            current_epoch_order_ref =
              (case current_epoch_order self of
                 Some order \<Rightarrow> Some (whole 6 order) | None \<Rightarrow> None),
            shuffle_producer_ref = shuffle_producer self,
            training_queue_refs = [],
            train_pos_count_val = train_pos_count self,
            train_batch_size_val = train_batch_size self,
            eval_users_per_batch_val = eval_users_per_batch self \<rparr>))"

definition stored_batch :: "store \<Rightarrow> array_ref \<times> array_ref \<times> array_ref \<Rightarrow> batch" where
  "stored_batch h b =
     (read_vector h (fst b), read_vector h (fst (snd b)), read_vector h (snd (snd b)))"

definition result_in_store :: "store \<times> 'a result \<Rightarrow> (store \<times> 'a) result" where
  "result_in_store m =
     (case snd m of Ok v \<Rightarrow> Ok (fst m, v) | Raise e \<Rightarrow> Raise e | Blocked \<Rightarrow> Blocked)"

definition ragged_in_store :: "(store \<times> constructor_refs) result" where
  "ragged_in_store = and_then ragged_example (\<lambda>self. Ok (in_store self))"

section \<open>Properties\<close>

subsection \<open>Sequencing\<close>

lemma and_then_simps [simp]:
  "and_then (Ok v) f = f v"
  "and_then (Raise e) f = Raise e"
  "and_then Blocked f = Blocked"
  by (simp_all add: and_then_def)

lemma and_then_Ok_iff: "and_then r f = Ok v \<longleftrightarrow> (\<exists>x. r = Ok x \<and> f x = Ok v)"
  by (cases r) simp_all

subsection \<open>Arithmetic of batch counts\<close>

lemma ceil_div_int:
  fixes a b :: int
  assumes "0 < b"
  shows "(a + b - 1) div b = - ((- a) div b)"
proof -
  define q where "q = a div b"
  define r where "r = a mod b"
  have a: "a = q * b + r" by (simp add: q_def r_def)
  have r: "0 \<le> r" "r < b" using assms by (simp_all add: r_def)
  show ?thesis
  proof (cases "r = 0")
    case True
    have "(a + b - 1) div b = (b - 1 + q * b) div b" using a True by (simp add: algebra_simps)
    also have "\<dots> = q" using assms by simp
    finally have l: "(a + b - 1) div b = q" .
    have "- a = (- q) * b" using a True by simp
    then have "(- a) div b = ((- q) * b) div b" by simp
    also have "\<dots> = - q" using nonzero_mult_div_cancel_right [of b "- q"] assms by simp
    finally have "(- a) div b = - q" .
    with l show ?thesis by simp
  next
    case False
    have "(a + b - 1) div b = (r - 1 + (q + 1) * b) div b" using a by (simp add: algebra_simps)
    also have "\<dots> = (r - 1) div b + (q + 1)" using assms by (simp only: div_mult_self1 [of b])
    also have "\<dots> = q + 1" using r False by (simp add: div_pos_pos_trivial)
    finally have l: "(a + b - 1) div b = q + 1" .
    have "(- a) div b = (b - r + (- q - 1) * b) div b" using a by (simp add: algebra_simps)
    also have "\<dots> = (b - r) div b + (- q - 1)" using assms by (simp only: div_mult_self1 [of b])
    also have "\<dots> = - q - 1" using r False by (simp add: div_pos_pos_trivial)
    finally have "(- a) div b = - q - 1" .
    with l show ?thesis by simp
  qed
qed

lemma ceil_div_real:
  fixes a b :: int
  assumes "0 < b"
  shows "(a + b - 1) div b = \<lceil>real_of_int a / real_of_int b\<rceil>"
  using ceil_div_int [OF assms, of a] by (simp add: ceiling_divide_eq_div)

text \<open>
  Claim C5. For positive \<open>example_count\<close>, \<open>batch_size\<close> and \<open>batches_per_step\<close>,
  \<^verbatim>\<open>_count_batches\<close> returns
  \<open>ceil (ceil (example_count / batch_size) / batches_per_step) * batches_per_step\<close>
  (ceilings of the real quotients), which is a multiple of \<open>batches_per_step\<close>.
\<close>

theorem count_batches_ceil:
  assumes "0 < example_count" and "0 < batch_size" and "0 < batches_per_step"
  shows "count_batches example_count batch_size batches_per_step =
           Ok (\<lceil>real_of_int \<lceil>real_of_int example_count / real_of_int batch_size\<rceil>
                 / real_of_int batches_per_step\<rceil> * batches_per_step)
         \<and> (\<exists>n. count_batches example_count batch_size batches_per_step = Ok n
                \<and> batches_per_step dvd n)"
proof -
  have "count_batches example_count batch_size batches_per_step =
          Ok ((((example_count + batch_size - 1) div batch_size) + batches_per_step - 1)
                div batches_per_step * batches_per_step)"
    using assms by (simp add: count_batches_def and_then_def py_floordiv_def)
  then show ?thesis
    using assms by (simp add: ceil_div_real)
qed

theorem count_batches_ceil_witness:
  "(0::int) < 10 \<and> (0::int) < 4 \<and> (0::int) < 3
   \<and> count_batches 10 4 3 =
       Ok (\<lceil>real_of_int \<lceil>real_of_int 10 / real_of_int 4\<rceil> / real_of_int 3\<rceil> * 3)
   \<and> count_batches 10 4 3 = Ok 3"
  using count_batches_ceil [of 10 4 3]
  by (simp add: count_batches_def and_then_def py_floordiv_def)

subsection \<open>Construction\<close>

text \<open>
  Claim C10. Constructing with \<open>train_pos_users\<close> and \<open>train_pos_items\<close> of different
  lengths fails with \<^verbatim>\<open>AssertionError\<close> before anything is created; and whenever
  construction succeeds the object holds the two arrays it was given, they have the
  same length, and \<open>train_pos_count\<close> is that length.
\<close>

theorem init_unequal_shapes:
  "(length tu \<noteq> length ti \<longrightarrow>
      init N perms me nu ni tu ti tbs bpts ntn eu ei ebs bpes = ([], Raise AssertionError))
   \<and> (\<forall>events self. init N perms me nu ni tu ti tbs bpts ntn eu ei ebs bpes = (events, Ok self) \<longrightarrow>
         train_pos_users self = tu \<and> train_pos_items self = ti
         \<and> length (train_pos_users self) = length (train_pos_items self)
         \<and> train_pos_count self = int (length (train_pos_users self)))"
  by (auto simp add: init_def Let_def and_then_def py_mod_def py_floordiv_def count_batches_def
      split: result.splits if_splits)

theorem init_unequal_shapes_witness:
  "length [0::int] \<noteq> length ([]::int list)
   \<and> init 1 [] 1 1 2 [0] [] 1 1 1 [0] [1] 2 1 = ([], Raise AssertionError)
   \<and> (\<exists>events self. init 1 [[0, 1]] 1 1 2 [0] [1] 1 1 1 [0] [0] 2 1 = (events, Ok self)
         \<and> train_pos_users self = [0] \<and> train_pos_items self = [1]
         \<and> length (train_pos_users self) = length (train_pos_items self)
         \<and> train_pos_count self = 1)"
  using init_unequal_shapes [of "[0]" "[]" 1 "[]" 1 1 2 1 1 1 "[0]" "[1]" 2 1]
    init_unequal_shapes [of "[0]" "[1]" 1 "[[0, 1]]" 1 1 2 1 1 1 "[0]" "[0]" 2 1]
  by (simp add: init_def Let_def and_then_def py_mod_def py_floordiv_def count_batches_def)




subsection \<open>The negative table on a concrete input\<close>

text \<open>
  Claim C1. On \<open>two_user_example\<close> (users \<open>[0, 0, 1, 1]\<close>, items \<open>[0, 1, 2, 3]\<close>, two
  users, four items) \<^verbatim>\<open>construct_lookup_variables\<close> builds the row of user 0 as
  claimed, but gives user 1, whose positives are 2 and 3, the count 4 and the row
  \<open>[0, 1, 2, 3]\<close>: the list of bounds ends with \<open>num_users\<close>, so the slice of the last
  user's positives is \<open>items[2:2]\<close>, which is empty. The claim wants count 2 and the
  row \<open>[0, 1, 65535, 65535]\<close>.
\<close>

theorem construct_lookup_variables_last_user:
  "and_then (and_then two_user_example construct_lookup_variables)
     (\<lambda>self. Ok (negative_table self, per_user_neg_count self))
   = Ok (Some [[2, 3, 65535, 65535], [0, 1, 2, 3]], Some [2, 4])"
  by code_simp

text \<open>
  Claim C2. On the same input, a lookup for user 1 in which the sampler draws index 2
  (the count of user 1 is 4, so the index is in range) returns item 2, which is one of
  the training positives of user 1.
\<close>

theorem lookup_negative_items_last_user:
  "and_then (and_then two_user_example construct_lookup_variables)
     (\<lambda>self. lookup_negative_items (\<lambda>counts. [2]) self [1]) = Ok [2]"
  by code_simp

subsection \<open>The stop flag\<close>

lemma run_epochs_begins_next:
  "take (Suc (length events))
     (fst (run_epochs stop_requested draws k (Suc n) (events, self)))
   = events @ [TrainingEpochConstruction (stop_loop_flag self \<or> stop_requested k)]"
proof -
  have start: "take (length events) (fst (run_epochs stop_requested draws k m (events, self')))
               = events" for m k events self'
  proof (induction m arbitrary: k events self')
    case 0
    then show ?case by simp
  next
    case (Suc m)
    show ?case
    proof (cases "construct_training_epoch (draws k) (between_epochs stop_requested k self')")
      case (Ok self2)
      have "take (length events)
              (take (length (events @ [TrainingEpochConstruction
                                        (stop_loop_flag (between_epochs stop_requested k self'))]))
                 (fst (run_epochs stop_requested draws (Suc k) m
                        (events @ [TrainingEpochConstruction
                                     (stop_loop_flag (between_epochs stop_requested k self'))],
                         self2))))
            = events"
        unfolding Suc.IH by simp
      then show ?thesis using Ok by (simp add: Let_def min_def)
    qed (simp_all add: Let_def)
  qed
  have flag: "stop_loop_flag (between_epochs stop_requested k self)
              = (stop_loop_flag self \<or> stop_requested k)"
    by (simp add: between_epochs_def stop_loop_def)
  show ?thesis
  proof (cases "construct_training_epoch (draws k) (between_epochs stop_requested k self)")
    case (Ok self2)
    have "take (length (events @ [TrainingEpochConstruction
                                    (stop_loop_flag self \<or> stop_requested k)]))
            (fst (run_epochs stop_requested draws (Suc k) n
                   (events @ [TrainingEpochConstruction
                                (stop_loop_flag self \<or> stop_requested k)], self2)))
          = events @ [TrainingEpochConstruction (stop_loop_flag self \<or> stop_requested k)]"
      by (rule start)
    then show ?thesis using Ok flag by (simp add: Let_def)
  qed (simp_all add: Let_def flag)
qed

text \<open>
  Claim C7. On \<open>three_epoch_example\<close> (three epochs), with \<^verbatim>\<open>stop_loop\<close> called after
  the first training epoch and the eval epoch are complete and before the second
  training epoch starts, \<^verbatim>\<open>run\<close> still begins the second training epoch: the log
  shows a training-epoch construction that starts while the flag is set. \<^verbatim>\<open>run\<close>
  never reads the flag: by \<open>run_epochs_begins_next\<close>, as long as the loop has an
  iteration left the next construction begins, whatever the flag says.
\<close>

theorem run_ignores_stop_flag:
  "and_then three_epoch_example
     (\<lambda>self. Ok (fst (run 2 (\<lambda>k. k = 1) (\<lambda>epoch k. first_index) (\<lambda>k. first_index) self)))
   = Ok [PermuterStarted, LookupVariablesConstructed, TrainingEpochConstruction False,
         EvalEpochConstruction, TrainingEpochConstruction True]"
  by code_simp

subsection \<open>Chunks of the epoch order\<close>

lemma slice_to_pos [simp]: "0 \<le> b \<Longrightarrow> slice_to xs b = take (nat b) xs"
  by (simp add: slice_to_def slice_bound_def min_def)

lemma slice_from_pos [simp]: "0 \<le> b \<Longrightarrow> slice_from xs b = drop (nat b) xs"
  by (simp add: slice_from_def slice_bound_def min_def)

lemma get_order_chunk_inside:
  assumes "current_epoch_order s = Some c" and "train_batch_size s = int B" and "B < length c"
  shows "get_order_chunk s = Ok (take B c, s\<lparr>current_epoch_order := Some (drop B c)\<rparr>)"
  using assms by (simp add: get_order_chunk_def current_order_def refill_order_def Let_def)

lemma get_order_chunk_exact:
  assumes "current_epoch_order s = Some c" and "train_batch_size s = int (length c)"
    and "started (shuffle_producer s)" and "\<not> stopped (shuffle_producer s)"
    and "to_produce (shuffle_producer s) = p # P"
  shows "get_order_chunk s =
           Ok (c, s\<lparr>current_epoch_order := Some p,
                    shuffle_producer := (shuffle_producer s)\<lparr>to_produce := P\<rparr>\<rparr>)"
  using assms
  by (simp add: get_order_chunk_def current_order_def refill_order_def Let_def permuter_get_def)

lemma get_order_chunk_spanning:
  assumes "current_epoch_order s = Some c" and "train_batch_size s = int B" and "length c < B"
    and "started (shuffle_producer s)" and "\<not> stopped (shuffle_producer s)"
    and "to_produce (shuffle_producer s) = p # P"
  shows "get_order_chunk s =
           Ok (c @ take (B - length c) p,
               s\<lparr>current_epoch_order := Some (drop (B - length c) p),
                 shuffle_producer := (shuffle_producer s)\<lparr>to_produce := P\<rparr>\<rparr>)"
proof -
  have "int B - int (length c) = int (B - length c)" using assms(3) by simp
  moreover have "0 \<le> int (B - length c)" by simp
  ultimately show ?thesis
    using assms
    by (simp add: get_order_chunk_def current_order_def refill_order_def Let_def permuter_get_def
        del: of_nat_diff)
qed

lemma get_order_chunk_first_inside:
  assumes "current_epoch_order s = None" and "train_batch_size s = int B" and "B < length p"
    and "started (shuffle_producer s)" and "\<not> stopped (shuffle_producer s)"
    and "to_produce (shuffle_producer s) = p # P"
  shows "get_order_chunk s =
           Ok (take B p,
               s\<lparr>current_epoch_order := Some (drop B p),
                 shuffle_producer := (shuffle_producer s)\<lparr>to_produce := P\<rparr>\<rparr>)"
  using assms
  by (simp add: get_order_chunk_def current_order_def refill_order_def Let_def permuter_get_def)

lemma get_order_chunk_first_exact:
  assumes "current_epoch_order s = None" and "train_batch_size s = int (length p)"
    and "started (shuffle_producer s)" and "\<not> stopped (shuffle_producer s)"
    and "to_produce (shuffle_producer s) = p # p2 # P"
  shows "get_order_chunk s =
           Ok (p, s\<lparr>current_epoch_order := Some p2,
                    shuffle_producer := (shuffle_producer s)\<lparr>to_produce := P\<rparr>\<rparr>)"
  using assms
  by (simp add: get_order_chunk_def current_order_def refill_order_def Let_def permuter_get_def)

lemma length_concat_uniform:
  "list_all (\<lambda>p. length p = E) ps \<Longrightarrow> length (concat ps) = length ps * E"
  by (induction ps) simp_all

text \<open>One call, when the index stream holds more than a batch: the call returns the next
  \<open>train_batch_size\<close> indices of the stream and leaves the rest of the stream.\<close>

lemma get_order_chunk_step:
  assumes ready: "chunk_ready s"
    and more: "nat (train_batch_size s) < length (order_stream s)"
  shows "\<exists>cur producer.
           get_order_chunk s =
             Ok (take (nat (train_batch_size s)) (order_stream s),
                 s\<lparr>current_epoch_order := Some cur, shuffle_producer := producer\<rparr>)
           \<and> cur \<noteq> []
           \<and> cur @ concat (to_produce producer) = drop (nat (train_batch_size s)) (order_stream s)
           \<and> started producer \<and> \<not> stopped producer
           \<and> list_all (\<lambda>order. int (length order) = elements_in_epoch s) (to_produce producer)"
proof -
  define B where "B = nat (train_batch_size s)"
  define E where "E = nat (elements_in_epoch s)"
  have B: "train_batch_size s = int B" "0 < B" "B \<le> E" and E: "elements_in_epoch s = int E"
    using ready by (auto simp: chunk_ready_def B_def E_def)
  have run: "started (shuffle_producer s)" "\<not> stopped (shuffle_producer s)"
    using ready by (auto simp: chunk_ready_def)
  have lens: "list_all (\<lambda>order. int (length order) = int E) (to_produce (shuffle_producer s))"
    using ready E by (simp add: chunk_ready_def)
  have more': "B < length (order_stream s)" using more by (simp add: B_def)
  show ?thesis
  proof (cases "current_epoch_order s")
    case None
    have stream0: "order_stream s = concat (to_produce (shuffle_producer s))"
      using None by (simp add: order_stream_def)
    then obtain p P1 where P1: "to_produce (shuffle_producer s) = p # P1"
      using more' by (cases "to_produce (shuffle_producer s)") auto
    have lp: "length p = E" and lens1: "list_all (\<lambda>order. int (length order) = int E) P1"
      using lens P1 by auto
    show ?thesis
    proof (cases "B < E")
      case True
      then have "B < length p" using lp by simp
      from get_order_chunk_first_inside [OF None B(1) this run P1] show ?thesis
        unfolding B(1) E stream0 P1 nat_int
        apply (intro exI [of _ "drop B p"] exI [of _ "(shuffle_producer s)\<lparr>to_produce := P1\<rparr>"])
        using True lp run lens1 by simp
    next
      case False
      then have BE: "B = E" using B by simp
      then obtain p2 P where P12: "P1 = p2 # P"
        using more' lp unfolding stream0 P1 by (cases P1) auto
      have P: "to_produce (shuffle_producer s) = p # p2 # P" using P1 P12 by simp
      have lp2: "length p2 = E" "list_all (\<lambda>order. int (length order) = int E) P"
        using lens1 P12 by auto
      have "train_batch_size s = int (length p)" using B lp BE by simp
      from get_order_chunk_first_exact [OF None this run P] show ?thesis
        unfolding B(1) E stream0 P nat_int
        apply (intro exI [of _ p2] exI [of _ "(shuffle_producer s)\<lparr>to_produce := P\<rparr>"])
        using BE lp lp2 run B by auto
    qed
  next
    case (Some c)
    then have c: "c \<noteq> []" using ready by (simp add: chunk_ready_def)
    have stream0: "order_stream s = c @ concat (to_produce (shuffle_producer s))"
      using Some by (simp add: order_stream_def)
    consider "B < length c" | "B = length c" | "length c < B" by linarith
    then show ?thesis
    proof cases
      case 1
      from get_order_chunk_inside [OF Some B(1) 1] show ?thesis
        unfolding B(1) E stream0 nat_int
        apply (intro exI [of _ "drop B c"] exI [of _ "shuffle_producer s"])
        using 1 run lens by simp
    next
      case 2
      then obtain p P where P: "to_produce (shuffle_producer s) = p # P"
        using more' unfolding stream0 by (cases "to_produce (shuffle_producer s)") auto
      have lp: "length p = E" "list_all (\<lambda>order. int (length order) = int E) P"
        using lens P by auto
      have "train_batch_size s = int (length c)" using B 2 by simp
      from get_order_chunk_exact [OF Some this run P] show ?thesis
        unfolding B(1) E stream0 P nat_int
        apply (intro exI [of _ p] exI [of _ "(shuffle_producer s)\<lparr>to_produce := P\<rparr>"])
        using 2 lp run B by auto
    next
      case 3
      then obtain p P where P: "to_produce (shuffle_producer s) = p # P"
        using more' unfolding stream0 by (cases "to_produce (shuffle_producer s)") auto
      have lp: "length p = E" "list_all (\<lambda>order. int (length order) = int E) P"
        using lens P by auto
      have "0 < length c" using c by simp
      with 3 B lp have short: "B - length c < length p" by linarith
      from get_order_chunk_spanning [OF Some B(1) 3 run P] show ?thesis
        unfolding B(1) E stream0 P nat_int
        apply (intro exI [of _ "drop (B - length c) p"]
            exI [of _ "(shuffle_producer s)\<lparr>to_produce := P\<rparr>"])
        using 3 lp run B c short by auto
    qed
  qed
qed

lemma chunk_ready_after:
  assumes "chunk_ready s" and "cur \<noteq> []" and "started producer" and "\<not> stopped producer"
    and "list_all (\<lambda>order. int (length order) = elements_in_epoch s) (to_produce producer)"
  shows "chunk_ready (s\<lparr>current_epoch_order := Some cur, shuffle_producer := producer\<rparr>)"
  using assms by (simp add: chunk_ready_def)

text \<open>One call, when the stream holds a batch or less: the call waits on the producer,
  which has nothing more to hand out.\<close>

lemma get_order_chunk_blocked:
  assumes ready: "chunk_ready s"
    and short: "length (order_stream s) \<le> nat (train_batch_size s)"
  shows "get_order_chunk s = Blocked"
proof -
  define B where "B = nat (train_batch_size s)"
  define E where "E = nat (elements_in_epoch s)"
  have B: "train_batch_size s = int B" "0 < B" "B \<le> E" and E: "elements_in_epoch s = int E"
    using ready by (auto simp: chunk_ready_def B_def E_def)
  have run: "started (shuffle_producer s)" "\<not> stopped (shuffle_producer s)"
    using ready by (auto simp: chunk_ready_def)
  have lens: "list_all (\<lambda>order. int (length order) = int E) (to_produce (shuffle_producer s))"
    using ready E by (simp add: chunk_ready_def)
  have short': "length (order_stream s) \<le> B" using short by (simp add: B_def)
  show ?thesis
  proof (cases "current_epoch_order s")
    case None
    have stream0: "order_stream s = concat (to_produce (shuffle_producer s))"
      using None by (simp add: order_stream_def)
    show ?thesis
    proof (cases "to_produce (shuffle_producer s)")
      case Nil
      then show ?thesis
        using None run
        by (simp add: get_order_chunk_def current_order_def permuter_get_def)
    next
      case (Cons p P)
      then have lp: "length p = E" and lP: "list_all (\<lambda>order. int (length order) = int E) P"
        using lens by auto
      have "length p + length (concat P) \<le> B" using short' unfolding stream0 Cons by simp
      then have BE: "B = E" and none: "length (concat P) = 0" using lp B by linarith+
      have P: "P = []"
      proof (cases P)
        case Nil
        then show ?thesis .
      next
        case (Cons p2 P2)
        then have "length p2 = E" using lP by simp
        then show ?thesis using none Cons B by simp
      qed
      show ?thesis
        using None run Cons P lp BE B
        by (simp add: get_order_chunk_def current_order_def refill_order_def Let_def
            permuter_get_def)
    qed
  next
    case (Some c)
    then have c: "c \<noteq> []" using ready by (simp add: chunk_ready_def)
    have stream0: "order_stream s = c @ concat (to_produce (shuffle_producer s))"
      using Some by (simp add: order_stream_def)
    have P: "to_produce (shuffle_producer s) = []"
    proof (cases "to_produce (shuffle_producer s)")
      case Nil
      then show ?thesis .
    next
      case (Cons p P)
      then have "length p = E" using lens by auto
      then have "length c + E \<le> B" using short' unfolding stream0 Cons by simp
      then show ?thesis using c B by (cases c) auto
    qed
    have "length c \<le> B" using short' unfolding stream0 P by simp
    then show ?thesis
      using Some run P B
      by (simp add: get_order_chunk_def current_order_def refill_order_def Let_def
          permuter_get_def)
  qed
qed

lemma get_order_chunk_Ok_more:
  assumes "chunk_ready s" and "get_order_chunk s = Ok r"
  shows "nat (train_batch_size s) < length (order_stream s)"
proof (rule ccontr)
  assume "\<not> nat (train_batch_size s) < length (order_stream s)"
  then have "length (order_stream s) \<le> nat (train_batch_size s)" by simp
  from get_order_chunk_blocked [OF assms(1) this] assms(2) show False by simp
qed

lemma order_chunks_stream:
  assumes "chunk_ready s" and "n * nat (train_batch_size s) < length (order_stream s)"
  shows "\<exists>chunks s'. order_chunks n s = Ok (chunks, s')
           \<and> length chunks = n
           \<and> list_all (\<lambda>c. length c = nat (train_batch_size s)) chunks
           \<and> concat chunks = take (n * nat (train_batch_size s)) (order_stream s)"
  using assms
proof (induction n arbitrary: s)
  case 0
  then show ?case by simp
next
  case (Suc n)
  define B where "B = nat (train_batch_size s)"
  from Suc.prems(2) have more: "B < length (order_stream s)"
    and rest_more: "n * B < length (order_stream s) - B"
    unfolding B_def by simp_all
  from get_order_chunk_step [OF Suc.prems(1)] more
  obtain cur producer where step:
    "get_order_chunk s = Ok (take B (order_stream s),
        s\<lparr>current_epoch_order := Some cur, shuffle_producer := producer\<rparr>)"
    "cur \<noteq> []" "cur @ concat (to_produce producer) = drop B (order_stream s)"
    "started producer" "\<not> stopped producer"
    "list_all (\<lambda>order. int (length order) = elements_in_epoch s) (to_produce producer)"
    unfolding B_def by blast
  let ?s1 = "s\<lparr>current_epoch_order := Some cur, shuffle_producer := producer\<rparr>"
  have ready1: "chunk_ready ?s1"
    using chunk_ready_after [OF Suc.prems(1) step(2) step(4) step(5) step(6)] .
  have stream1: "order_stream ?s1 = drop B (order_stream s)"
    using step(3) by (simp add: order_stream_def)
  have B1: "nat (train_batch_size ?s1) = B" by (simp add: B_def)
  have more1: "n * nat (train_batch_size ?s1) < length (order_stream ?s1)"
    unfolding B1 stream1 using rest_more by simp
  from Suc.IH [OF ready1 more1] obtain chunks s' where rest:
    "order_chunks n ?s1 = Ok (chunks, s')" "length chunks = n"
    "list_all (\<lambda>c. length c = B) chunks"
    "concat chunks = take (n * B) (drop B (order_stream s))"
    unfolding B1 stream1 by blast
  have "take B (order_stream s) @ take (n * B) (drop B (order_stream s))
        = take (Suc n * B) (order_stream s)"
    by (simp add: take_add)
  then show ?case
    unfolding B_def [symmetric]
    using step(1) rest more
    by (intro exI [of _ "take B (order_stream s) # chunks"] exI [of _ s']) auto
qed

lemma order_chunks_blocked:
  assumes "chunk_ready s" and "0 < n"
    and "length (order_stream s) \<le> n * nat (train_batch_size s)"
  shows "order_chunks n s = Blocked"
  using assms
proof (induction n arbitrary: s)
  case 0
  then show ?case by simp
next
  case (Suc n)
  define B where "B = nat (train_batch_size s)"
  show ?case
  proof (cases "B < length (order_stream s)")
    case False
    then have "length (order_stream s) \<le> nat (train_batch_size s)" by (simp add: B_def)
    from get_order_chunk_blocked [OF Suc.prems(1) this] show ?thesis by simp
  next
    case True
    from get_order_chunk_step [OF Suc.prems(1)] True
    obtain cur producer where step:
      "get_order_chunk s = Ok (take B (order_stream s),
          s\<lparr>current_epoch_order := Some cur, shuffle_producer := producer\<rparr>)"
      "cur \<noteq> []" "cur @ concat (to_produce producer) = drop B (order_stream s)"
      "started producer" "\<not> stopped producer"
      "list_all (\<lambda>order. int (length order) = elements_in_epoch s) (to_produce producer)"
      unfolding B_def by blast
    let ?s1 = "s\<lparr>current_epoch_order := Some cur, shuffle_producer := producer\<rparr>"
    have ready1: "chunk_ready ?s1"
      using chunk_ready_after [OF Suc.prems(1) step(2) step(4) step(5) step(6)] .
    have stream1: "order_stream ?s1 = drop B (order_stream s)"
      using step(3) by (simp add: order_stream_def)
    have B1: "nat (train_batch_size ?s1) = B" by (simp add: B_def)
    have "length (order_stream s) \<le> B + n * B" using Suc.prems(3) by (simp add: B_def)
    then have short1: "length (order_stream ?s1) \<le> n * nat (train_batch_size ?s1)"
      unfolding B1 stream1 by simp
    have "0 < n" using True short1 unfolding B1 stream1 by (cases n) auto
    from Suc.IH [OF ready1 this short1] show ?thesis using step(1) by simp
  qed
qed

lemma concat_take_uniform:
  "list_all (\<lambda>c. length c = B) cs \<Longrightarrow> concat (take k cs) = take (k * B) (concat cs)"
proof (induction cs arbitrary: k)
  case Nil
  then show ?case by simp
next
  case (Cons c cs)
  then show ?case by (cases k) simp_all
qed

lemma concat_drop_uniform:
  "list_all (\<lambda>c. length c = B) cs \<Longrightarrow> concat (drop m cs) = drop (m * B) (concat cs)"
proof (induction cs arbitrary: m)
  case Nil
  then show ?case by simp
next
  case (Cons c cs)
  then show ?case by (cases m) simp_all
qed

lemma list_all_drop: "list_all P xs \<Longrightarrow> list_all P (drop m xs)"
  by (auto simp: list_all_iff dest: in_set_dropD)

lemma concat_window_uniform:
  assumes "list_all (\<lambda>c. length c = B) cs"
  shows "concat (take k (drop m cs)) = take (k * B) (drop (m * B) (concat cs))"
  using concat_take_uniform [OF list_all_drop [OF assms], of k m] concat_drop_uniform [OF assms, of m]
  by simp

lemma concat_uniform_nth:
  "list_all (\<lambda>p. length p = E) ps \<Longrightarrow> j < length ps \<Longrightarrow>
   take E (drop (j * E) (concat ps)) = ps ! j"
proof (induction ps arbitrary: j)
  case Nil
  then show ?case by simp
next
  case (Cons p ps)
  then show ?case by (cases j) simp_all
qed

lemma permutation_length:
  assumes "distinct xs" and "set xs = {0..<E}"
  shows "int (length xs) = max 0 E"
proof -
  have "length xs = card (set xs)" using assms(1) by (simp add: distinct_card)
  then show ?thesis using assms(2) by simp
qed

text \<open>
  Claim C3, as stated: every call of \<^verbatim>\<open>_get_order_chunk\<close> returns exactly
  \<open>train_batch_size\<close> indices, and calls that consume one epoch's worth of indices
  return every index once. Neither holds in general. When a batch is larger than an
  epoch a call comes back short: with an epoch of two indices and a batch size of five,
  the first call returns the four indices of the first two permutations (only one
  roll-over is made per call). And calls that do not start at the beginning of an
  epoch mix two permutations: on \<open>tiling_example\<close> (epoch of four, batches of two)
  the second and the third call together consume four indices and return
  \<open>[2, 3]\<close> and \<open>[3, 2]\<close>, the end of the first permutation and the start of the
  second.
\<close>

theorem get_order_chunk_short:
  "and_then big_batch_example
     (\<lambda>self. and_then (get_order_chunk self)
        (\<lambda>chunk. Ok (train_batch_size self, elements_in_epoch self, fst chunk)))
   = Ok (5, 2, [0, 1, 1, 0])
   \<and> and_then tiling_example
       (\<lambda>self. and_then (order_chunks 3 self)
          (\<lambda>chunks. Ok (train_batch_size self, elements_in_epoch self, fst chunks)))
     = Ok (2, 4, [[0, 1], [2, 3], [3, 2]])"
  by code_simp

text \<open>
  Claim C3, amended. Start from a newly constructed object whose producer is running,
  with a batch size that is positive and at most the epoch size, and whose producer
  holds permutations of \<open>[0, elements_in_epoch)\<close>. As long as the \<open>n\<close> calls ask
  for fewer indices than these permutations hold together
  (\<open>n * train_batch_size < number of permutations * elements_in_epoch\<close>), the first
  \<open>n\<close> calls all return, each with exactly \<open>train_batch_size\<close> indices, and the
  chunks put end to end are the first \<open>n * train_batch_size\<close> entries of the
  permutations put end to end: no position is skipped or repeated, also in a call that
  takes the end of one permutation and the start of the next. When \<open>k\<close> batches make
  up an epoch exactly, the \<open>k\<close> calls of epoch \<open>j\<close> return permutation \<open>j\<close> of
  the producer, that is every index of \<open>[0, elements_in_epoch)\<close> once. (With fewer
  indices left, a call waits on the producer: \<open>order_chunks_blocked\<close>.)
\<close>

theorem order_chunks_tile_epochs:
  assumes fresh: "current_epoch_order self = None"
    and run: "started (shuffle_producer self)" "\<not> stopped (shuffle_producer self)"
    and size: "0 < train_batch_size self" "train_batch_size self \<le> elements_in_epoch self"
    and perms: "list_all (\<lambda>order. distinct order \<and> set order = {0..<elements_in_epoch self})
                  (to_produce (shuffle_producer self))"
    and enough: "int n * train_batch_size self
                   < int (length (to_produce (shuffle_producer self))) * elements_in_epoch self"
  shows "\<exists>chunks self'. order_chunks n self = Ok (chunks, self')
      \<and> length chunks = n
      \<and> list_all (\<lambda>c. int (length c) = train_batch_size self) chunks
      \<and> concat chunks = take (n * nat (train_batch_size self))
                           (concat (to_produce (shuffle_producer self)))
      \<and> (\<forall>k j. int k * train_batch_size self = elements_in_epoch self \<and> (j + 1) * k \<le> n \<longrightarrow>
            concat (take k (drop (j * k) chunks)) = to_produce (shuffle_producer self) ! j
            \<and> distinct (concat (take k (drop (j * k) chunks)))
            \<and> set (concat (take k (drop (j * k) chunks))) = {0..<elements_in_epoch self})"
proof -
  define B where "B = nat (train_batch_size self)"
  define E where "E = nat (elements_in_epoch self)"
  define ps where "ps = to_produce (shuffle_producer self)"
  have B: "train_batch_size self = int B" "0 < B" "B \<le> E" and E: "elements_in_epoch self = int E"
    using size by (auto simp: B_def E_def)
  have lens: "list_all (\<lambda>order. length order = E) ps"
    using perms permutation_length unfolding ps_def E list_all_iff by fastforce
  have ready: "chunk_ready self"
    using fresh run size lens E by (simp add: chunk_ready_def ps_def)
  have stream: "order_stream self = concat ps" using fresh by (simp add: order_stream_def ps_def)
  have "int (n * B) < int (length ps * E)"
    using enough unfolding B(1) E ps_def [symmetric] by simp
  then have total: "n * B < length ps * E" by (simp only: of_nat_less_iff)
  then have more: "n * nat (train_batch_size self) < length (order_stream self)"
    unfolding stream length_concat_uniform [OF lens] B_def .
  from order_chunks_stream [OF ready more] obtain chunks self' where oc:
    "order_chunks n self = Ok (chunks, self')" "length chunks = n"
    "list_all (\<lambda>c. length c = B) chunks"
    "concat chunks = take (n * B) (concat ps)"
    unfolding B_def [symmetric] stream by blast
  have tiles: "concat (take k (drop (j * k) chunks)) = ps ! j
      \<and> distinct (concat (take k (drop (j * k) chunks)))
      \<and> set (concat (take k (drop (j * k) chunks))) = {0..<elements_in_epoch self}"
    if kB: "int k * train_batch_size self = elements_in_epoch self" and j: "(j + 1) * k \<le> n"
    for k j
  proof -
    have kE: "k * B = E" using kB B E by (metis of_nat_eq_iff of_nat_mult)
    have "(j + 1) * k * B \<le> n * B" using j by simp
    then have "(j + 1) * (k * B) \<le> n * B" by (simp only: mult.assoc)
    then have fit: "j * E + E \<le> n * B" unfolding kE by simp
    then have "Suc j * E < length ps * E" using total by simp
    then have "Suc j < length ps" unfolding mult_less_cancel2 by (rule conjunct2)
    then have jn: "j < length ps" by simp
    have "concat (take k (drop (j * k) chunks)) = take (k * B) (drop (j * k * B) (concat chunks))"
      using concat_window_uniform [OF oc(3)] .
    also have "\<dots> = take E (drop (j * E) (take (n * B) (concat ps)))"
      using kE oc(4) by (simp add: mult.assoc)
    also have "\<dots> = take E (drop (j * E) (concat ps))"
      using fit by (simp add: drop_take min_def)
    also have "\<dots> = ps ! j" using concat_uniform_nth [OF lens jn] .
    finally have eq: "concat (take k (drop (j * k) chunks)) = ps ! j" .
    have "ps ! j \<in> set ps" using jn by simp
    then have "distinct (ps ! j) \<and> set (ps ! j) = {0..<elements_in_epoch self}"
      using perms unfolding ps_def list_all_iff by blast
    with eq show ?thesis by simp
  qed
  show ?thesis
  proof (intro exI conjI)
    show "order_chunks n self = Ok (chunks, self')" by fact
    show "length chunks = n" by fact
    show "list_all (\<lambda>c. int (length c) = train_batch_size self) chunks"
      using oc(3) B by (simp add: list_all_iff)
    show "concat chunks = take (n * nat (train_batch_size self))
                           (concat (to_produce (shuffle_producer self)))"
      using oc(4) by (simp add: B_def ps_def)
    show "\<forall>k j. int k * train_batch_size self = elements_in_epoch self \<and> (j + 1) * k \<le> n \<longrightarrow>
            concat (take k (drop (j * k) chunks)) = to_produce (shuffle_producer self) ! j
            \<and> distinct (concat (take k (drop (j * k) chunks)))
            \<and> set (concat (take k (drop (j * k) chunks))) = {0..<elements_in_epoch self}"
      using tiles unfolding ps_def by blast
  qed
qed

theorem order_chunks_tile_epochs_witness:
  "case tiling_example of
     Ok self \<Rightarrow>
       current_epoch_order self = None
       \<and> started (shuffle_producer self) \<and> \<not> stopped (shuffle_producer self)
       \<and> 0 < train_batch_size self \<and> train_batch_size self \<le> elements_in_epoch self
       \<and> list_all (\<lambda>order. distinct order \<and> set order = {0..<elements_in_epoch self})
            (to_produce (shuffle_producer self))
       \<and> int 6 * train_batch_size self
            < int (length (to_produce (shuffle_producer self))) * elements_in_epoch self
       \<and> maximum_number_epochs self * train_batches_per_epoch self = 6
       \<and> int 2 * train_batch_size self = elements_in_epoch self
       \<and> (\<exists>chunks self'. order_chunks 6 self = Ok (chunks, self')
            \<and> length chunks = 6
            \<and> list_all (\<lambda>c. int (length c) = train_batch_size self) chunks
            \<and> concat chunks = [0, 1, 2, 3, 3, 2, 1, 0, 1, 0, 3, 2]
            \<and> concat (take 2 chunks) = [0, 1, 2, 3]
            \<and> concat (take 2 (drop 2 chunks)) = [3, 2, 1, 0]
            \<and> concat (take 2 (drop 4 chunks)) = [1, 0, 3, 2])
   | Raise e \<Rightarrow> False
   | Blocked \<Rightarrow> False"
proof -
  have facts: "and_then tiling_example (\<lambda>self. Ok
      (current_epoch_order self = None
       \<and> started (shuffle_producer self) \<and> \<not> stopped (shuffle_producer self)
       \<and> train_batch_size self = 2 \<and> elements_in_epoch self = 4
       \<and> to_produce (shuffle_producer self) = [[0, 1, 2, 3], [3, 2, 1, 0], [1, 0, 3, 2], [0, 1, 2, 3]]
       \<and> maximum_number_epochs self * train_batches_per_epoch self = 6))
     = Ok True"
    by code_simp
  then have "\<exists>self. tiling_example = Ok self"
    unfolding and_then_Ok_iff by (elim exE conjE) (rule exI)
  then obtain self where ex: "tiling_example = Ok self" by blast
  have f: "current_epoch_order self = None"
      "started (shuffle_producer self)" "\<not> stopped (shuffle_producer self)"
      "train_batch_size self = 2" "elements_in_epoch self = 4"
      "to_produce (shuffle_producer self) = [[0, 1, 2, 3], [3, 2, 1, 0], [1, 0, 3, 2], [0, 1, 2, 3]]"
      "maximum_number_epochs self * train_batches_per_epoch self = 6"
    using facts unfolding ex by simp_all
  have sets: "{0..<4::int} = {0, 1, 2, 3}" by auto
  have perms: "list_all (\<lambda>order. distinct order \<and> set order = {0..<elements_in_epoch self})
            (to_produce (shuffle_producer self))"
    unfolding f sets by auto
  have h: "0 < train_batch_size self" "train_batch_size self \<le> elements_in_epoch self"
    "int 6 * train_batch_size self
       < int (length (to_produce (shuffle_producer self))) * elements_in_epoch self"
    using f by simp_all
  have tile: "int 2 * train_batch_size self = elements_in_epoch self" using f by simp
  have t0: "int 2 * train_batch_size self = elements_in_epoch self \<and> (0 + 1) * 2 \<le> (6::nat)"
    and t1: "int 2 * train_batch_size self = elements_in_epoch self \<and> (1 + 1) * 2 \<le> (6::nat)"
    and t2: "int 2 * train_batch_size self = elements_in_epoch self \<and> (2 + 1) * 2 \<le> (6::nat)"
    using f by simp_all
  from order_chunks_tile_epochs [OF f(1) f(2) f(3) h(1) h(2) perms h(3)]
  obtain chunks self' where oc: "order_chunks 6 self = Ok (chunks, self')"
    "length chunks = 6" "list_all (\<lambda>c. int (length c) = train_batch_size self) chunks"
    and all: "concat chunks = take (6 * nat (train_batch_size self))
                           (concat (to_produce (shuffle_producer self)))"
    and tiles: "\<forall>k j. int k * train_batch_size self = elements_in_epoch self \<and> (j + 1) * k \<le> 6 \<longrightarrow>
            concat (take k (drop (j * k) chunks)) = to_produce (shuffle_producer self) ! j
            \<and> distinct (concat (take k (drop (j * k) chunks)))
            \<and> set (concat (take k (drop (j * k) chunks))) = {0..<elements_in_epoch self}"
    by (elim exE conjE)
  have whole: "concat chunks = [0, 1, 2, 3, 3, 2, 1, 0, 1, 0, 3, 2]"
    using all unfolding f by simp
  from tiles [rule_format, OF t0]
  have "concat (take 2 (drop (0 * 2) chunks)) = to_produce (shuffle_producer self) ! 0"
    by (rule conjunct1)
  then have e0: "concat (take 2 chunks) = [0, 1, 2, 3]"
    unfolding f(6) by simp
  from tiles [rule_format, OF t1]
  have "concat (take 2 (drop (1 * 2) chunks)) = to_produce (shuffle_producer self) ! 1"
    by (rule conjunct1)
  then have e1: "concat (take 2 (drop 2 chunks)) = [3, 2, 1, 0]"
    unfolding f(6) by simp
  from tiles [rule_format, OF t2]
  have "concat (take 2 (drop (2 * 2) chunks)) = to_produce (shuffle_producer self) ! 2"
    by (rule conjunct1)
  then have e2: "concat (take 2 (drop 4 chunks)) = [1, 0, 3, 2]"
    unfolding f(6) by simp
  have "\<exists>chunks self'. order_chunks 6 self = Ok (chunks, self')
            \<and> length chunks = 6
            \<and> list_all (\<lambda>c. int (length c) = train_batch_size self) chunks
            \<and> concat chunks = [0, 1, 2, 3, 3, 2, 1, 0, 1, 0, 3, 2]
            \<and> concat (take 2 chunks) = [0, 1, 2, 3]
            \<and> concat (take 2 (drop 2 chunks)) = [3, 2, 1, 0]
            \<and> concat (take 2 (drop 4 chunks)) = [1, 0, 3, 2]"
    using oc whole e0 e1 e2 by blast
  with f(1,2,3,7) h perms tile show ?thesis
    unfolding ex by simp
qed

subsection \<open>Training batches\<close>

lemma np_take_Ok_length: "np_take xs idx = Ok vs \<Longrightarrow> length vs = length idx"
proof (induction idx arbitrary: vs)
  case Nil
  then show ?case by simp
next
  case (Cons i idx)
  then show ?case by (auto simp: and_then_Ok_iff)
qed

lemma np_take_Ok_nth:
  "np_take xs idx = Ok vs \<Longrightarrow> j < length idx \<Longrightarrow> np_index xs (idx ! j) = Ok (vs ! j)"
proof (induction idx arbitrary: vs j)
  case Nil
  then show ?case by simp
next
  case (Cons i idx)
  then show ?case by (cases j) (auto simp: and_then_Ok_iff)
qed

lemma mask_fill_length: "length (mask_fill xs flags vs) = length xs"
  by (induction xs flags vs rule: mask_fill.induct) simp_all

lemma mask_fill_keep:
  "j < length xs \<Longrightarrow> j < length flags \<Longrightarrow> \<not> flags ! j \<Longrightarrow> mask_fill xs flags vs ! j = xs ! j"
proof (induction xs flags vs arbitrary: j rule: mask_fill.induct)
  case (1 x xs flags v vs)
  then show ?case by (cases j) simp_all
next
  case (2 x xs flags vs)
  then show ?case by (cases j) simp_all
qed simp_all

lemma mask_assign_Ok:
  assumes "mask_assign xs flags vs = Ok ys"
  shows "length ys = length xs"
    and "j < length xs \<Longrightarrow> j < length flags \<Longrightarrow> \<not> flags ! j \<Longrightarrow> ys ! j = xs ! j"
  using assms
  by (auto simp: mask_assign_def Let_def mask_fill_length mask_fill_keep split: if_splits)

lemma np_take2_Ok_length: "np_take2 table rs cs = Ok vs \<Longrightarrow> length vs = length rs"
proof (induction table rs cs arbitrary: vs rule: np_take2.induct)
  case (2 table r rs c cs)
  then show ?case by (auto simp: and_then_Ok_iff)
qed simp_all

lemma lookup_negative_items_Ok_length:
  "lookup_negative_items sampler self negative_users = Ok vs \<Longrightarrow>
   length vs = length negative_users"
  by (auto simp: lookup_negative_items_def and_then_Ok_iff Let_def np_take2_Ok_length
      split: option.splits)

lemma mask_select_length:
  "length xs = length flags \<Longrightarrow> length (mask_select xs flags) = length (filter id flags)"
  by (induction xs flags rule: list_induct2) (simp_all add: mask_select_def)

lemma mask_select_mask_fill:
  "length xs = length flags \<Longrightarrow> length vs = length (filter id flags) \<Longrightarrow>
   mask_select (mask_fill xs flags vs) flags = vs"
proof (induction xs flags arbitrary: vs rule: list_induct2)
  case Nil
  then show ?case by (simp add: mask_select_def)
next
  case (Cons x xs flag flags)
  show ?case
  proof (cases flag)
    case True
    then obtain v vs' where vs: "vs = v # vs'" using Cons.prems by (cases vs) auto
    then have "length vs' = length (filter id flags)" using Cons.prems True by (simp add: id_def)
    from Cons.IH [OF this] show ?thesis using True vs by (simp add: mask_select_def)
  next
    case False
    then have "length vs = length (filter id flags)" using Cons.prems by (simp add: id_def)
    from Cons.IH [OF this] show ?thesis using False by (simp add: mask_select_def)
  qed
qed

lemma mask_assign_select:
  assumes "mask_assign xs flags vs = Ok ys" and "length xs = length flags"
    and "length vs = length (filter id flags)"
  shows "mask_select ys flags = vs"
  using assms by (auto simp: mask_assign_def Let_def mask_select_mask_fill)

text \<open>The state in which a batch is requested is kept by every batch that is built, and
  it holds when \<^verbatim>\<open>run\<close> has started the producer of a new object.\<close>

lemma get_training_batch_keeps_ready:
  assumes ready: "chunk_ready self"
    and batch: "get_training_batch slightly_biased_randint self = Ok self'"
  shows "chunk_ready self'"
    and "order_stream self' = drop (nat (train_batch_size self)) (order_stream self)"
proof -
  from batch obtain r where "get_order_chunk self = Ok r"
    unfolding get_training_batch_def and_then_Ok_iff by (elim exE conjE)
  from get_order_chunk_Ok_more [OF ready this]
  have more: "nat (train_batch_size self) < length (order_stream self)" .
  from get_order_chunk_step [OF ready more] obtain cur producer where
    chunk: "get_order_chunk self =
              Ok (take (nat (train_batch_size self)) (order_stream self),
                  self\<lparr>current_epoch_order := Some cur, shuffle_producer := producer\<rparr>)"
    and after: "cur \<noteq> []"
      "cur @ concat (to_produce producer) = drop (nat (train_batch_size self)) (order_stream self)"
      "started producer" "\<not> stopped producer"
      "list_all (\<lambda>order. int (length order) = elements_in_epoch self) (to_produce producer)"
    by blast
  define self1 where "self1 = self\<lparr>current_epoch_order := Some cur, shuffle_producer := producer\<rparr>"
  have ready1: "chunk_ready self1"
    unfolding self1_def using chunk_ready_after [OF ready after(1) after(3) after(4) after(5)] .
  have stream1: "order_stream self1 = drop (nat (train_batch_size self)) (order_stream self)"
    using after(2) by (simp add: self1_def order_stream_def)
  from batch obtain queue where self': "self' = self1\<lparr>training_queue := queue\<rparr>"
    unfolding get_training_batch_def chunk self1_def [symmetric]
    by (auto simp: and_then_Ok_iff Let_def)
  show "chunk_ready self'" using ready1 unfolding self' by (simp add: chunk_ready_def)
  show "order_stream self' = drop (nat (train_batch_size self)) (order_stream self)"
    using stream1 unfolding self' by (simp add: order_stream_def)
qed

lemma init_chunk_ready:
  assumes made: "snd (init negatives permutations epochs users_n items_n users items batch steps
                        train_negatives eval_users eval_items eval_batch eval_steps) = Ok self"
    and size: "0 < batch" "batch \<le> (1 + train_negatives) * int (length users)"
    and lens: "list_all (\<lambda>order. int (length order) = (1 + train_negatives) * int (length users))
                 permutations"
  shows "chunk_ready (start_producer self)"
    and "order_stream (start_producer self) = concat permutations"
  using assms
  by (auto simp: init_def Let_def and_then_Ok_iff chunk_ready_def start_producer_def
      permuter_start_def order_stream_def split: if_splits result.splits)

text \<open>
  Claim C8, as stated: the ragged final batch of an epoch is zero-padded. It is not.
  On \<open>ragged_example\<close> (epoch of three indices, batches of two, two batches per
  epoch) the second batch is made of index 2 of the first permutation and index 2,
  the head of the second permutation: users \<open>[1, 1]\<close>, items \<open>[3, 3]\<close>, labels
  \<open>[1, 1]\<close>, where zero padding would give \<open>[1, 0]\<close>, \<open>[3, 0]\<close>, \<open>[1, 0]\<close>.
\<close>

theorem training_batch_not_zero_padded:
  "and_then ragged_example (\<lambda>self.
     and_then (get_training_batch first_index self) (\<lambda>self1.
     and_then (get_training_batch first_index self1) (\<lambda>self2.
     Ok (elements_in_epoch self, train_batch_size self, train_batches_per_epoch self,
         training_queue self2))))
   = Ok (3, 2, 2, [([0, 1], [1, 2], [1, 1]), ([1, 1], [3, 3], [1, 1])])"
  by code_simp

text \<open>
  Claim C8, amended. Let the batch size be positive and at most the epoch size, the
  producer be running with permutations of the epoch's length, and the current order be
  unset or non-empty (the state that \<^verbatim>\<open>run\<close> sets up and every batch keeps). Then
  every batch that \<^verbatim>\<open>_get_training_batch\<close> puts on the queue is a triple of
  sequences of length \<open>train_batch_size\<close>, and every entry of it is built from the
  next \<open>train_batch_size\<close> indices of the index stream, which runs on from the rest
  of the current permutation into the next one: the users are the training users at
  the indices modulo \<open>train_pos_count\<close>; the labels are 1 for indices below
  \<open>train_pos_count\<close> and 0 otherwise; the items at the positive positions are the
  training items at the indices modulo \<open>train_pos_count\<close>; and the items at the
  negative positions, read in order, are the entries of the negative table in the rows
  of the users at these positions and the columns the sampler drew for them. Nothing is
  padded.
\<close>

theorem get_training_batch_full:
  assumes ready: "chunk_ready self"
    and batch: "get_training_batch slightly_biased_randint self = Ok self'"
  shows "\<exists>users items labels.
           training_queue self' = training_queue self @ [(users, items, labels)]
         \<and> length (next_indices self) = nat (train_batch_size self)
         \<and> int (length users) = train_batch_size self
         \<and> int (length items) = train_batch_size self
         \<and> int (length labels) = train_batch_size self
         \<and> np_take (train_pos_users self)
              (map (\<lambda>k. np_mod k (train_pos_count self)) (next_indices self)) = Ok users
         \<and> labels = map (\<lambda>k. if train_pos_count self \<le> k then 0 else 1) (next_indices self)
         \<and> (\<forall>j < nat (train_batch_size self).
               next_indices self ! j < train_pos_count self \<longrightarrow>
               np_index (train_pos_items self)
                 (np_mod (next_indices self ! j) (train_pos_count self)) = Ok (items ! j))
         \<and> (\<exists>counts table user_counts.
               per_user_neg_count self = Some counts \<and> negative_table self = Some table
             \<and> np_take counts
                  (mask_select users (map (\<lambda>k. train_pos_count self \<le> k) (next_indices self)))
                = Ok user_counts
             \<and> np_take2 table
                  (mask_select users (map (\<lambda>k. train_pos_count self \<le> k) (next_indices self)))
                  (slightly_biased_randint user_counts)
                = Ok (mask_select items
                        (map (\<lambda>k. train_pos_count self \<le> k) (next_indices self))))"
proof -
  define B where "B = nat (train_batch_size self)"
  define idx where "idx = next_indices self"
  define bim where "bim = map (\<lambda>k. np_mod k (train_pos_count self)) idx"
  define neg where "neg = map (\<lambda>k. train_pos_count self \<le> k) idx"
  have Bpos: "train_batch_size self = int B" using ready by (simp add: chunk_ready_def B_def)
  from batch obtain r where "get_order_chunk self = Ok r"
    unfolding get_training_batch_def and_then_Ok_iff by (elim exE conjE)
  from get_order_chunk_Ok_more [OF ready this]
  have more: "nat (train_batch_size self) < length (order_stream self)" .
  from get_order_chunk_step [OF ready more] obtain cur producer where
    chunk: "get_order_chunk self = Ok (idx, self\<lparr>current_epoch_order := Some cur,
                                                 shuffle_producer := producer\<rparr>)"
    unfolding idx_def next_indices_def by blast
  define self1 where "self1 = self\<lparr>current_epoch_order := Some cur, shuffle_producer := producer\<rparr>"
  have len_idx: "length idx = B" using more by (simp add: idx_def next_indices_def B_def)
  have same: "train_pos_users self1 = train_pos_users self"
    "train_pos_items self1 = train_pos_items self"
    "train_pos_count self1 = train_pos_count self"
    "training_queue self1 = training_queue self"
    "per_user_neg_count self1 = per_user_neg_count self"
    "negative_table self1 = negative_table self"
    by (simp_all add: self1_def)
  from batch obtain users negative_items items items' where
    users: "np_take (train_pos_users self) bim = Ok users"
    and lookup: "lookup_negative_items slightly_biased_randint self1 (mask_select users neg)
                   = Ok negative_items"
    and items: "np_take (train_pos_items self) bim = Ok items"
    and items': "mask_assign items neg negative_items = Ok items'"
    and self': "self' = self1\<lparr>training_queue := training_queue self1 @
                  [(users, items', map (\<lambda>negative. if negative then 0 else 1) neg)]\<rparr>"
    unfolding get_training_batch_def chunk self1_def [symmetric]
    by (auto simp: and_then_Ok_iff Let_def same bim_def neg_def)
  have lu: "length users = B" using np_take_Ok_length [OF users] len_idx by (simp add: bim_def)
  have li: "length items = B" using np_take_Ok_length [OF items] len_idx by (simp add: bim_def)
  have li': "length items' = B" using mask_assign_Ok(1) [OF items'] li by simp
  have ln: "length neg = B" using len_idx by (simp add: neg_def)
  have "length negative_items = length (mask_select users neg)"
    using lookup_negative_items_Ok_length [OF lookup] .
  also have "\<dots> = length (filter id neg)"
    using mask_select_length [of users neg] lu ln by simp
  finally have lneg: "length negative_items = length (filter id neg)" .
  have written: "mask_select items' neg = negative_items"
    using mask_assign_select [OF items' _ lneg] li ln by simp
  from lookup obtain counts table user_counts where
    table: "per_user_neg_count self = Some counts" "negative_table self = Some table"
      "np_take counts (mask_select users neg) = Ok user_counts"
      "np_take2 table (mask_select users neg) (slightly_biased_randint user_counts)
         = Ok negative_items"
    unfolding lookup_negative_items_def same
    by (auto simp: and_then_Ok_iff Let_def split: option.splits)
  have positives: "np_index (train_pos_items self) (np_mod (idx ! j) (train_pos_count self))
                     = Ok (items' ! j)"
    if j: "j < B" and pos: "idx ! j < train_pos_count self" for j
  proof -
    have "np_index (train_pos_items self) (bim ! j) = Ok (items ! j)"
      using np_take_Ok_nth [OF items] j len_idx by (simp add: bim_def)
    moreover have "items' ! j = items ! j"
      using mask_assign_Ok(2) [OF items', of j] j li len_idx pos by (simp add: neg_def)
    ultimately show ?thesis using j len_idx by (simp add: bim_def)
  qed
  show ?thesis
    unfolding idx_def [symmetric] B_def [symmetric] neg_def [symmetric] bim_def [symmetric]
  proof (intro exI conjI)
    show "training_queue self' = training_queue self @
            [(users, items', map (\<lambda>k. if train_pos_count self \<le> k then 0 else 1) idx)]"
      using self' same by (simp add: neg_def comp_def)
    show "length idx = B" by fact
    show "int (length users) = train_batch_size self" using lu Bpos by simp
    show "int (length items') = train_batch_size self" using li' Bpos by simp
    show "int (length (map (\<lambda>k. if train_pos_count self \<le> k then 0 else 1) idx))
            = train_batch_size self" using len_idx Bpos by simp
    show "np_take (train_pos_users self) bim = Ok users" by fact
    show "map (\<lambda>k. if train_pos_count self \<le> k then 0 else 1) idx =
          map (\<lambda>k. if train_pos_count self \<le> k then 0 else 1) idx" ..
    show "\<forall>j < B. idx ! j < train_pos_count self \<longrightarrow>
               np_index (train_pos_items self) (np_mod (idx ! j) (train_pos_count self))
                 = Ok (items' ! j)"
      using positives by blast
    show "per_user_neg_count self = Some counts" by fact
    show "negative_table self = Some table" by fact
    show "np_take counts (mask_select users neg) = Ok user_counts" by fact
    show "np_take2 table (mask_select users neg) (slightly_biased_randint user_counts)
            = Ok (mask_select items' neg)"
      using table(4) written by simp
  qed
qed

theorem get_training_batch_full_witness:
  "case spill_second_call of
     Ok self \<Rightarrow>
       chunk_ready self
       \<and> elements_in_epoch self = 6 \<and> train_batch_size self = 4
       \<and> current_epoch_order self = Some [2, 5]
       \<and> next_indices self = [2, 5, 2, 5]
       \<and> (\<exists>self' users items labels.
             get_training_batch second_index self = Ok self'
             \<and> training_queue self' = training_queue self @ [(users, items, labels)]
             \<and> int (length users) = train_batch_size self
             \<and> int (length items) = train_batch_size self
             \<and> int (length labels) = train_batch_size self
             \<and> users = [1, 1, 1, 1]
             \<and> labels = [1, 0, 1, 0]
             \<and> mask_select items [False, True, False, True] = [1, 1])
   | Raise e \<Rightarrow> False
   | Blocked \<Rightarrow> False"
proof -
  have facts: "and_then spill_second_call (\<lambda>self.
      and_then (get_training_batch second_index self) (\<lambda>self'.
      Ok (chunk_ready self
          \<and> elements_in_epoch self = 6 \<and> train_batch_size self = 4
          \<and> current_epoch_order self = Some [2, 5]
          \<and> next_indices self = [2, 5, 2, 5]
          \<and> train_pos_count self = 3
          \<and> train_pos_users self = [0, 1, 1]
          \<and> per_user_neg_count self = Some [3, 3]
          \<and> negative_table self = Some [[0, 2, 3, 65535], [0, 1, 3, 65535]]))) = Ok True"
    by code_simp
  then obtain self self' where ex: "spill_second_call = Ok self"
    and batch: "get_training_batch second_index self = Ok self'"
    and ready: "chunk_ready self"
    and f: "elements_in_epoch self = 6" "train_batch_size self = 4"
      "current_epoch_order self = Some [2, 5]"
      "next_indices self = [2, 5, 2, 5]" "train_pos_count self = 3"
      "train_pos_users self = [0, 1, 1]" "per_user_neg_count self = Some [3, 3]"
      "negative_table self = Some [[0, 2, 3, 65535], [0, 1, 3, 65535]]"
    unfolding and_then_Ok_iff by (elim exE conjE) simp
  from get_training_batch_full [OF ready batch]
  obtain users items labels user_counts where
    queue: "training_queue self' = training_queue self @ [(users, items, labels)]"
    and lens: "int (length users) = train_batch_size self"
      "int (length items) = train_batch_size self"
      "int (length labels) = train_batch_size self"
    and users: "np_take [0, 1, 1] (map (\<lambda>k. np_mod k 3) [2, 5, 2, 5]) = Ok users"
    and labels: "labels = map (\<lambda>k. if (3::int) \<le> k then 0 else 1) [2, 5, 2, 5]"
    and counts: "np_take [3, 3] (mask_select users (map (\<lambda>k. (3::int) \<le> k) [2, 5, 2, 5]))
                   = Ok user_counts"
    and negatives: "np_take2 [[0, 2, 3, 65535], [0, 1, 3, 65535]]
                      (mask_select users (map (\<lambda>k. (3::int) \<le> k) [2, 5, 2, 5]))
                      (second_index user_counts)
                    = Ok (mask_select items (map (\<lambda>k. (3::int) \<le> k) [2, 5, 2, 5]))"
    unfolding f by (elim exE conjE) simp
  have u: "users = [1, 1, 1, 1]"
    using users by (simp add: np_mod_def np_index_def Let_def)
  have l: "labels = [1, 0, 1, 0]" using labels by simp
  have c: "user_counts = [3, 3]"
    using counts unfolding u by (simp add: mask_select_def np_index_def Let_def)
  have n: "mask_select items [False, True, False, True] = [1, 1]"
    using negatives unfolding u c
    by (simp add: mask_select_def np_index_def Let_def second_index_def)
  have "\<exists>self' users items labels.
             get_training_batch second_index self = Ok self'
             \<and> training_queue self' = training_queue self @ [(users, items, labels)]
             \<and> int (length users) = train_batch_size self
             \<and> int (length items) = train_batch_size self
             \<and> int (length labels) = train_batch_size self
             \<and> users = [1, 1, 1, 1]
             \<and> labels = [1, 0, 1, 0]
             \<and> mask_select items [False, True, False, True] = [1, 1]"
    using batch queue lens u l n by blast
  with ready f(1-4) show ?thesis unfolding ex by (simp only: result.case simp_thms)
qed

subsection \<open>Evaluation batches\<close>

lemma reshape_rows_Ok:
  assumes "reshape_rows n xs = Ok rows" and "0 < n"
  shows "length rows = length xs div n" and "list_all (\<lambda>row. length row = n) rows"
    and "r < length rows \<Longrightarrow> rows ! r = take n (drop (r * n) xs)"
proof -
  have rows: "rows = map (\<lambda>r. take n (drop (r * n) xs)) [0..<length xs div n]"
    using assms(1) by (simp add: reshape_rows_def split: if_splits)
  show "length rows = length xs div n" by (simp add: rows)
  show "r < length rows \<Longrightarrow> rows ! r = take n (drop (r * n) xs)" by (simp add: rows)
  have "n \<le> length xs - r * n" if "r < length xs div n" for r
  proof -
    have "(r + 1) * n \<le> (length xs div n) * n" using that by (intro mult_le_mono1) simp
    also have "\<dots> \<le> length xs" by simp
    finally show ?thesis by simp
  qed
  then have "\<forall>r < length xs div n. length (take n (drop (r * n) xs)) = n"
    by (simp add: min_absorb2)
  then show "list_all (\<lambda>row. length row = n) rows"
    unfolding rows list_all_iff by auto
qed

lemma mask_duplicates_row_length [simp]: "length (mask_duplicates_row row) = length row"
  by (simp add: mask_duplicates_row_def)

lemma mask_duplicates_row_first: "row \<noteq> [] \<Longrightarrow> mask_duplicates_row row ! 0 = 0"
  by (cases row) (simp_all add: mask_duplicates_row_def nth_append upt_rec)

lemma mask_duplicates_row_repeat:
  assumes "c < length row" and "0 < c" and "row ! c = row ! 0"
  shows "mask_duplicates_row row ! c = 1"
proof -
  have "take c row ! 0 \<in> set (take c row)"
    using assms(1,2) by (intro nth_mem) simp
  then have "row ! 0 \<in> set (take c row)"
    using assms(2) by simp
  then show ?thesis using assms by (simp add: mask_duplicates_row_def)
qed

lemma swap_first_last_length [simp]: "length (swap_first_last row) = length row"
  by (simp add: swap_first_last_def)

lemma swap_first_last_last:
  "row \<noteq> [] \<Longrightarrow> swap_first_last row ! (length row - 1) = row ! 0"
  by (simp add: swap_first_last_def hd_conv_nth)

lemma swap_first_last_first:
  "1 < length row \<Longrightarrow> swap_first_last row ! 0 = row ! (length row - 1)"
  by (cases "row = []") (simp_all add: swap_first_last_def last_conv_nth)

lemma swap_first_last_middle:
  "0 < c \<Longrightarrow> c < length row - 1 \<Longrightarrow> swap_first_last row ! c = row ! c"
  by (simp add: swap_first_last_def)

lemma concat_nth_uniform:
  assumes "list_all (\<lambda>row. length row = w) rows" and "r < length rows" and "c < w"
  shows "concat rows ! (r * w + c) = rows ! r ! c"
proof -
  have "rows ! r = take w (drop (r * w) (concat rows))"
    using concat_uniform_nth [OF assms(1,2)] by simp
  then have "rows ! r ! c = take w (drop (r * w) (concat rows)) ! c" by simp
  also have "\<dots> = drop (r * w) (concat rows) ! c" using assms(3) by simp
  also have "\<dots> = concat rows ! (r * w + c)"
  proof -
    have "length (rows ! r) = w" using assms(1,2) by (simp add: list_all_iff)
    then have "length (take w (drop (r * w) (concat rows))) = w"
      using \<open>rows ! r = take w (drop (r * w) (concat rows))\<close> by simp
    then have "w \<le> length (drop (r * w) (concat rows))"
      by (simp only: length_take)
    then have "r * w + c < length (concat rows)" using assms(3) by simp
    then show ?thesis by simp
  qed
  finally show ?thesis by simp
qed

lemma swapped_row_positive:
  fixes row :: "int list"
  assumes "1 < length row"
  shows "swap_first_last row ! (length row - 1) = row ! 0"
    and "swap_first_last (mask_duplicates_row row) ! (length row - 1) = 0"
    and "c < length row - 1 \<Longrightarrow> swap_first_last row ! c = row ! 0 \<Longrightarrow>
         swap_first_last (mask_duplicates_row row) ! c = 1"
proof -
  have ne: "row \<noteq> []" "mask_duplicates_row row \<noteq> []"
    using assms by (auto simp: mask_duplicates_row_def)
  show "swap_first_last row ! (length row - 1) = row ! 0"
    using swap_first_last_last [OF ne(1)] .
  show "swap_first_last (mask_duplicates_row row) ! (length row - 1) = 0"
    using swap_first_last_last [OF ne(2)] mask_duplicates_row_first [OF ne(1)] by simp
  show "swap_first_last (mask_duplicates_row row) ! c = 1"
    if c: "c < length row - 1" and same: "swap_first_last row ! c = row ! 0"
  proof (cases "c = 0")
    case True
    have "row ! (length row - 1) = row ! 0"
      using same True swap_first_last_first [OF assms] by simp
    then have "mask_duplicates_row row ! (length row - 1) = 1"
      using assms by (intro mask_duplicates_row_repeat) simp_all
    moreover have "swap_first_last (mask_duplicates_row row) ! 0
                   = mask_duplicates_row row ! (length row - 1)"
      using swap_first_last_first [of "mask_duplicates_row row"] assms by simp
    ultimately show ?thesis using True by simp
  next
    case False
    then have c0: "0 < c" by simp
    have "row ! c = row ! 0" using same swap_first_last_middle [OF c0 c] by simp
    then have "mask_duplicates_row row ! c = 1"
      using c c0 by (intro mask_duplicates_row_repeat) simp_all
    moreover have "swap_first_last (mask_duplicates_row row) ! c = mask_duplicates_row row ! c"
      using swap_first_last_middle [of c "mask_duplicates_row row"] c0 c by simp
    ultimately show ?thesis by simp
  qed
qed

text \<open>
  Claim C4, as stated: exactly one column of each row equals the true positive. It
  does not hold when a sampled negative is the held-out positive, which the table
  allows (a held-out item is not a training positive). On \<open>collision_example\<close>
  the items of user 0 are \<open>[2, 1, 1]\<close> after the swap, with the positive 1 in the
  second and in the last column; the mask \<open>[0, 1, 0]\<close> marks the second column.
\<close>

theorem eval_batch_two_columns_equal_positive:
  "and_then collision_example (\<lambda>self.
     and_then (get_eval_batch 2 colliding_draws self 0) (\<lambda>batch.
     Ok (eval_pos_users self, eval_pos_items self, per_user_neg_count self, batch)))
   = Ok ([0, 1], [1, 2], Some [2, 2],
         ([0, 0, 0, 1, 1, 1], [2, 1, 1, 1, 2, 2], [0, 1, 0, 0, 1, 0]))"
  by code_simp

text \<open>
  Claim C4, amended. In every batch that \<^verbatim>\<open>_get_eval_batch\<close> returns, for every row
  \<open>r\<close> of a real user (the rows before the padding, as many as the slice of
  \<open>eval_pos_users\<close> has entries): the last column of the items row is the held-out
  positive of that row, its mask entry is 0, and every other column of the row that
  holds the same item has mask entry 1. The mask is computed while the positive is in
  the first column, so the positive is never masked out and it is the only unmasked
  column that equals it. The arrays are the flattened matrices: entry \<open>(r, c)\<close> is
  at position \<open>r * (1 + NUM_EVAL_NEGATIVES) + c\<close>.
\<close>

theorem get_eval_batch_positive_last:
  fixes NUM_EVAL_NEGATIVES :: int
  defines "width \<equiv> nat (1 + NUM_EVAL_NEGATIVES)"
  assumes batch: "get_eval_batch NUM_EVAL_NEGATIVES sampler self i = Ok (users, items, duplicate_mask)"
    and positives: "positives = slice (eval_pos_items self) (i * eval_users_per_batch self)
                                  ((i + 1) * eval_users_per_batch self)"
    and row: "r < length positives"
  shows "items ! (r * width + (width - 1)) = positives ! r
       \<and> duplicate_mask ! (r * width + (width - 1)) = 0
       \<and> (\<forall>c < width - 1. items ! (r * width + c) = positives ! r \<longrightarrow>
              duplicate_mask ! (r * width + c) = 1)
       \<and> length positives = length (slice (eval_pos_users self) (i * eval_users_per_batch self)
                                  ((i + 1) * eval_users_per_batch self))
       \<and> 1 < width"
proof -
  define eval_users where "eval_users = slice (eval_pos_users self) (i * eval_users_per_batch self)
                                  ((i + 1) * eval_users_per_batch self)"
  define user_rows where "user_rows = map (replicate width) eval_users"
  define padding :: "int list list" where
    "padding = replicate (nat (eval_users_per_batch self - int (length user_rows))) (replicate width 0)"
  from batch obtain negatives negative_rows where
    N: "0 < NUM_EVAL_NEGATIVES"
    and lookup: "lookup_negative_items sampler self (concat (map butlast user_rows)) = Ok negatives"
    and reshape: "reshape_rows (nat NUM_EVAL_NEGATIVES) negatives = Ok negative_rows"
    and same: "length positives = length negative_rows"
    and items: "items = concat (map swap_first_last
                          (map (\<lambda>pair. fst pair # snd pair) (zip positives negative_rows)) @ padding)"
    and mask: "duplicate_mask = concat (map swap_first_last (mask_duplicates
                          (map (\<lambda>pair. fst pair # snd pair) (zip positives negative_rows))) @ padding)"
    unfolding get_eval_batch_def Let_def positives user_rows_def eval_users_def padding_def width_def
    by (auto simp: and_then_Ok_iff split: if_splits)
  define n where "n = nat NUM_EVAL_NEGATIVES"
  have w: "width = n + 1" "0 < n" using N by (simp_all add: width_def n_def)
  define rows where "rows = map (\<lambda>pair. fst pair # snd pair) (zip positives negative_rows)"
  have neg_rows: "list_all (\<lambda>row. length row = n) negative_rows"
    "length negative_rows = length negatives div n"
    using reshape_rows_Ok [OF reshape] N by (simp_all add: n_def)
  have len_rows: "length rows = length positives" using same by (simp add: rows_def)
  have the_row: "rows ! r = positives ! r # negative_rows ! r"
    using row same by (simp add: rows_def)
  have row_len: "length (rows ! r) = width"
    using neg_rows(1) row same w by (simp add: the_row list_all_iff)
  have all_len: "list_all (\<lambda>row. length row = width) rows"
    using neg_rows(1) w unfolding rows_def list_all_iff by (auto dest: set_zip_rightD)
  have items_rows: "list_all (\<lambda>row. length row = width) (map swap_first_last rows @ padding)"
    using all_len by (auto simp: list_all_iff padding_def)
  have mask_rows: "list_all (\<lambda>row. length row = width)
                     (map swap_first_last (mask_duplicates rows) @ padding)"
    using all_len by (auto simp: list_all_iff padding_def mask_duplicates_def)
  have r1: "r < length (map swap_first_last rows @ padding)"
    and r2: "r < length (map swap_first_last (mask_duplicates rows) @ padding)"
    using row len_rows by (simp_all add: mask_duplicates_def)
  have item_at: "items ! (r * width + c) = swap_first_last (rows ! r) ! c" if "c < width" for c
    using concat_nth_uniform [OF items_rows r1 that] row len_rows
    by (simp add: items rows_def [symmetric] nth_append)
  have mask_at: "duplicate_mask ! (r * width + c)
                   = swap_first_last (mask_duplicates_row (rows ! r)) ! c" if "c < width" for c
    using concat_nth_uniform [OF mask_rows r2 that] row len_rows
    by (simp add: mask rows_def [symmetric] nth_append mask_duplicates_def)
  have long: "1 < length (rows ! r)" using row_len w by simp
  have first: "rows ! r ! 0 = positives ! r" by (simp add: the_row)
  have last_col: "width - 1 < width" using w by simp
  have a: "items ! (r * width + (width - 1)) = positives ! r"
    using item_at [OF last_col] swapped_row_positive(1) [OF long] first row_len by simp
  have b: "duplicate_mask ! (r * width + (width - 1)) = 0"
    using mask_at [OF last_col] swapped_row_positive(2) [OF long] row_len by simp
  have c: "duplicate_mask ! (r * width + c) = 1"
    if "c < width - 1" and "items ! (r * width + c) = positives ! r" for c
  proof -
    have cw: "c < width" using that(1) by simp
    have "swap_first_last (rows ! r) ! c = rows ! r ! 0"
      using that(2) item_at [OF cw] first by simp
    then show ?thesis
      using mask_at [OF cw] swapped_row_positive(3) [OF long, of c] that(1) row_len by simp
  qed
  have "length negatives = length eval_users * n"
    using lookup_negative_items_Ok_length [OF lookup] w
    by (simp add: user_rows_def length_concat comp_def sum_list_triv)
  then have d: "length positives = length eval_users"
    using same neg_rows(2) w by simp
  show ?thesis using a b c d w unfolding eval_users_def by simp
qed

theorem get_eval_batch_positive_last_witness:
  "case collision_example of
     Ok self \<Rightarrow>
       get_eval_batch 2 colliding_draws self 0
         = Ok ([0, 0, 0, 1, 1, 1], [2, 1, 1, 1, 2, 2], [0, 1, 0, 0, 1, 0])
       \<and> [1, 2] = slice (eval_pos_items self) (0 * eval_users_per_batch self)
                     ((0 + 1) * eval_users_per_batch self)
       \<and> (0::nat) < length [1, 2 :: int]
       \<and> [2, 1, 1, 1, 2, 2 :: int] ! (0 * nat (1 + 2) + (nat (1 + 2) - 1)) = [1, 2] ! 0
       \<and> [0, 1, 0, 0, 1, 0 :: int] ! (0 * nat (1 + 2) + (nat (1 + 2) - 1)) = 0
       \<and> [0, 1, 0, 0, 1, 0 :: int] ! (0 * nat (1 + 2) + 1) = 1
   | Raise e \<Rightarrow> False
   | Blocked \<Rightarrow> False"
proof -
  have facts: "and_then collision_example (\<lambda>self. Ok
      (get_eval_batch 2 colliding_draws self 0
         = Ok ([0, 0, 0, 1, 1, 1], [2, 1, 1, 1, 2, 2], [0, 1, 0, 0, 1, 0])
       \<and> [1, 2] = slice (eval_pos_items self) (0 * eval_users_per_batch self)
                     ((0 + 1) * eval_users_per_batch self))) = Ok True"
    by code_simp
  then obtain self where ex: "collision_example = Ok self"
    and batch: "get_eval_batch 2 colliding_draws self 0
         = Ok ([0, 0, 0, 1, 1, 1], [2, 1, 1, 1, 2, 2], [0, 1, 0, 0, 1, 0])"
    and positives: "[1, 2] = slice (eval_pos_items self) (0 * eval_users_per_batch self)
                     ((0 + 1) * eval_users_per_batch self)"
    unfolding and_then_Ok_iff by (elim exE conjE) simp
  have row: "(0::nat) < length [1, 2 :: int]" by simp
  note inst = get_eval_batch_positive_last [OF batch positives row]
  have a: "[2, 1, 1, 1, 2, 2 :: int] ! (0 * nat (1 + 2) + (nat (1 + 2) - 1)) = [1, 2] ! 0"
    using inst by (elim conjE)
  have b: "[0, 1, 0, 0, 1, 0 :: int] ! (0 * nat (1 + 2) + (nat (1 + 2) - 1)) = 0"
    using inst by (elim conjE)
  have "\<forall>c < nat (1 + 2) - 1. [2, 1, 1, 1, 2, 2 :: int] ! (0 * nat (1 + 2) + c) = [1, 2] ! 0 \<longrightarrow>
              [0, 1, 0, 0, 1, 0 :: int] ! (0 * nat (1 + 2) + c) = 1"
    using inst by (elim conjE)
  then have c: "[0, 1, 0, 0, 1, 0 :: int] ! (0 * nat (1 + 2) + 1) = 1"
    by simp
  from batch positives row a b c show ?thesis
    unfolding ex by (simp only: result.case)
qed

subsection \<open>What the batch operations leave alone\<close>

lemma unchanged_refl [simp]: "unchanged h h"
  by (simp add: unchanged_def)

lemma unchanged_prefix: "unchanged h h' \<longleftrightarrow> (\<exists>later. h' = h @ later)"
proof
  assume "unchanged h h'"
  then have "h' = h @ drop (length h) h'"
    unfolding unchanged_def by (metis append_take_drop_id)
  then show "\<exists>later. h' = h @ later" ..
next
  assume "\<exists>later. h' = h @ later"
  then show "unchanged h h'" by (auto simp: unchanged_def)
qed

lemma unchanged_new [simp]: "unchanged h0 h \<Longrightarrow> unchanged h0 (h @ cells)"
  by (auto simp: unchanged_prefix)

lemma unchanged_length: "unchanged h0 h \<Longrightarrow> length h0 \<le> length h"
  by (auto simp: unchanged_prefix)

lemma unchanged_update [simp]:
  "unchanged h0 h \<Longrightarrow> length h0 \<le> a \<Longrightarrow> unchanged h0 (h[a := cell])"
  by (auto simp: unchanged_prefix list_update_append)

lemma unchanged_write_vector [simp]:
  "unchanged h0 h \<Longrightarrow> length h0 \<le> buffer r \<Longrightarrow> unchanged h0 (write_vector h r vals)"
  by (simp add: write_vector_def split: ndarray.splits)

lemma unchanged_write_matrix [simp]:
  "unchanged h0 h \<Longrightarrow> length h0 \<le> a \<Longrightarrow> unchanged h0 (write_matrix h a rows)"
  by (simp add: write_matrix_def)

lemma then_in_store_new_vector [simp]:
  "then_in_store (new_vector h xs) f =
     f (h @ [Vector xs]) \<lparr>buffer = length h, first = 0, extent = length xs\<rparr>"
  by (simp add: new_vector_def)

lemma then_in_store_new_matrix [simp]:
  "then_in_store (new_matrix h rows) f = f (h @ [Matrix rows]) (length h)"
  by (simp add: new_matrix_def)

lemma then_in_store_unchanged:
  assumes "unchanged h0 (fst m)"
    and "\<And>h v. unchanged h0 h \<Longrightarrow> unchanged h0 (fst (f h v))"
  shows "unchanged h0 (fst (then_in_store m f))"
  using assms by (cases m; cases "snd m") simp_all

lemma then_pure_unchanged:
  assumes "unchanged h0 h"
    and "\<And>v. unchanged h0 (fst (f h v))"
  shows "unchanged h0 (fst (then_in_store (h, r) f))"
  using assms by (cases r) simp_all

lemma lookup_negative_items_in_store_unchanged:
  assumes "unchanged h0 h"
  shows "unchanged h0 (fst (lookup_negative_items_in_store sampler self h negative_users))"
  unfolding lookup_negative_items_in_store_def
  using assms by (intro then_pure_unchanged | simp add: new_vector_def)+

lemma order_from_producer_unchanged:
  assumes "unchanged h0 h"
  shows "unchanged h0 (fst (order_from_producer self h))"
  unfolding order_from_producer_def
  using assms by (intro then_pure_unchanged | simp)+

lemma get_order_chunk_in_store_unchanged:
  assumes "unchanged h0 h"
  shows "unchanged h0 (fst (get_order_chunk_in_store self h))"
  unfolding get_order_chunk_in_store_def Let_def
  using assms
  by (intro then_in_store_unchanged order_from_producer_unchanged
      | simp add: order_from_producer_unchanged split: option.splits)+

lemma then_chunk_unchanged:
  assumes "unchanged h0 h"
    and "\<And>h1 v. unchanged h0 h1 \<Longrightarrow> unchanged h0 (fst (f h1 v))"
  shows "unchanged h0 (fst (then_in_store (get_order_chunk_in_store self h) f))"
  using assms by (intro then_in_store_unchanged get_order_chunk_in_store_unchanged)

lemma then_lookup_unchanged:
  assumes "unchanged h0 h"
    and "\<And>h1 v. unchanged h0 h1 \<Longrightarrow> unchanged h0 (fst (f h1 v))"
  shows "unchanged h0
           (fst (then_in_store (lookup_negative_items_in_store sampler self h users) f))"
  using assms by (intro then_in_store_unchanged lookup_negative_items_in_store_unchanged)

lemma get_training_batch_in_store_unchanged:
  assumes "unchanged h0 h"
  shows "unchanged h0 (fst (get_training_batch_in_store sampler self h))"
  unfolding get_training_batch_in_store_def Let_def
  using assms
  by (intro then_chunk_unchanged then_lookup_unchanged then_pure_unchanged
      | simp add: unchanged_length le_SucI)+

lemma get_eval_batch_in_store_unchanged:
  assumes "unchanged h0 h"
  shows "unchanged h0 (fst (get_eval_batch_in_store NUM_EVAL_NEGATIVES sampler self h i))"
  unfolding get_eval_batch_in_store_def Let_def
  using assms
  by (intro then_lookup_unchanged then_pure_unchanged conjI impI
      | simp add: unchanged_length le_SucI)+

lemma unchanged_read_vector:
  "unchanged h h' \<Longrightarrow> buffer r < length h \<Longrightarrow> read_vector h' r = read_vector h r"
  by (auto simp: unchanged_prefix read_vector_def nth_append)

lemma unchanged_read_matrix:
  "unchanged h h' \<Longrightarrow> a < length h \<Longrightarrow> read_matrix h' a = read_matrix h a"
  by (auto simp: unchanged_prefix read_matrix_def nth_append)

text \<open>The store does tell a view from a copy: a write through a view changes the
  buffer it shares.\<close>

lemma write_through_view:
  "write_vector [Vector [1, 2, 3]] (view_from \<lparr>buffer = 0, first = 0, extent = 3\<rparr> 1) [8, 9]
     = [Vector [1, 8, 9]]"
  by (simp add: write_vector_def view_from_def slice_bound_def)

text \<open>On the examples, the operations on the store build the same batches as the
  operations of the first embedding.\<close>

lemma store_agrees_on_training_example:
  "and_then ragged_example (\<lambda>self.
     and_then (result_in_store
                 (get_training_batch_in_store first_index (snd (in_store self))
                    (fst (in_store self)))) (\<lambda>one.
     and_then (result_in_store (get_training_batch_in_store first_index (snd one) (fst one)))
       (\<lambda>two. Ok (map (stored_batch (fst two)) (training_queue_refs (snd two))))))
   = and_then ragged_example (\<lambda>self.
       and_then (get_training_batch first_index self) (\<lambda>self1.
       and_then (get_training_batch first_index self1) (\<lambda>self2. Ok (training_queue self2))))"
  by code_simp

lemma store_agrees_on_eval_example:
  "and_then collision_example (\<lambda>self.
     and_then (result_in_store
                 (get_eval_batch_in_store 2 colliding_draws (snd (in_store self))
                    (fst (in_store self)) 0))
       (\<lambda>done. Ok (stored_batch (fst done) (snd done))))
   = and_then collision_example (\<lambda>self. get_eval_batch 2 colliding_draws self 0)"
  by code_simp

text \<open>
  Claim C9. Whatever \<^verbatim>\<open>_get_training_batch\<close>, \<^verbatim>\<open>_get_eval_batch\<close> or
  \<^verbatim>\<open>lookup_negative_items\<close> does (return, raise or wait), every buffer that was in
  the store before the call has the same contents after it. So the arrays
  \<open>train_pos_users\<close>, \<open>train_pos_items\<close>, \<open>eval_pos_users\<close>, \<open>eval_pos_items\<close>, the
  negative table and the per-user counts read the same after the call as before. The
  negatives are written into the array that \<^verbatim>\<open>self._train_pos_items[batch_ind_mod]\<close>
  made, which did not exist before the call.
\<close>

theorem batch_construction_leaves_arrays_unchanged:
  assumes call:
      "h' = fst (get_training_batch_in_store sampler self h)
       \<or> h' = fst (get_eval_batch_in_store NUM_EVAL_NEGATIVES sampler self h i)
       \<or> h' = fst (lookup_negative_items_in_store sampler self h negative_users)"
    and stored:
      "buffer (train_pos_users_ref self) < length h"
      "buffer (train_pos_items_ref self) < length h"
      "buffer (eval_pos_users_ref self) < length h"
      "buffer (eval_pos_items_ref self) < length h"
      "negative_table_ref self < length h"
      "buffer (per_user_neg_count_ref self) < length h"
  shows "unchanged h h'
       \<and> read_vector h' (train_pos_users_ref self) = read_vector h (train_pos_users_ref self)
       \<and> read_vector h' (train_pos_items_ref self) = read_vector h (train_pos_items_ref self)
       \<and> read_vector h' (eval_pos_users_ref self) = read_vector h (eval_pos_users_ref self)
       \<and> read_vector h' (eval_pos_items_ref self) = read_vector h (eval_pos_items_ref self)
       \<and> read_matrix h' (negative_table_ref self) = read_matrix h (negative_table_ref self)
       \<and> read_vector h' (per_user_neg_count_ref self)
           = read_vector h (per_user_neg_count_ref self)"
proof -
  have "unchanged h h'"
    using call get_training_batch_in_store_unchanged [of h h sampler self]
      get_eval_batch_in_store_unchanged [of h h NUM_EVAL_NEGATIVES sampler self i]
      lookup_negative_items_in_store_unchanged [of h h sampler self negative_users]
    by auto
  then show ?thesis
    using stored by (simp add: unchanged_read_vector unchanged_read_matrix)
qed

theorem batch_construction_leaves_arrays_unchanged_witness:
  "case ragged_in_store of
     Ok layout \<Rightarrow>
       buffer (train_pos_users_ref (snd layout)) < length (fst layout)
       \<and> buffer (train_pos_items_ref (snd layout)) < length (fst layout)
       \<and> buffer (eval_pos_users_ref (snd layout)) < length (fst layout)
       \<and> buffer (eval_pos_items_ref (snd layout)) < length (fst layout)
       \<and> negative_table_ref (snd layout) < length (fst layout)
       \<and> buffer (per_user_neg_count_ref (snd layout)) < length (fst layout)
       \<and> read_vector (fst (get_training_batch_in_store first_index (snd layout) (fst layout)))
            (train_pos_items_ref (snd layout)) = [1, 2, 3]
       \<and> read_matrix (fst (get_eval_batch_in_store 1 first_index (snd layout) (fst layout) 0))
            (negative_table_ref (snd layout)) = [[0, 2, 3, 65535], [0, 1, 3, 65535]]
       \<and> read_vector
            (fst (lookup_negative_items_in_store first_index (snd layout) (fst layout)
                    (train_pos_users_ref (snd layout))))
            (per_user_neg_count_ref (snd layout)) = [3, 3]
   | Raise e \<Rightarrow> False
   | Blocked \<Rightarrow> False"
proof -
  have facts: "and_then ragged_in_store (\<lambda>layout. Ok
      (buffer (train_pos_users_ref (snd layout)) < length (fst layout)
       \<and> buffer (train_pos_items_ref (snd layout)) < length (fst layout)
       \<and> buffer (eval_pos_users_ref (snd layout)) < length (fst layout)
       \<and> buffer (eval_pos_items_ref (snd layout)) < length (fst layout)
       \<and> negative_table_ref (snd layout) < length (fst layout)
       \<and> buffer (per_user_neg_count_ref (snd layout)) < length (fst layout)
       \<and> read_vector (fst layout) (train_pos_items_ref (snd layout)) = [1, 2, 3]
       \<and> read_matrix (fst layout) (negative_table_ref (snd layout))
           = [[0, 2, 3, 65535], [0, 1, 3, 65535]]
       \<and> read_vector (fst layout) (per_user_neg_count_ref (snd layout)) = [3, 3]))
     = Ok True"
    by code_simp
  then obtain layout where ex: "ragged_in_store = Ok layout"
    and stored:
      "buffer (train_pos_users_ref (snd layout)) < length (fst layout)"
      "buffer (train_pos_items_ref (snd layout)) < length (fst layout)"
      "buffer (eval_pos_users_ref (snd layout)) < length (fst layout)"
      "buffer (eval_pos_items_ref (snd layout)) < length (fst layout)"
      "negative_table_ref (snd layout) < length (fst layout)"
      "buffer (per_user_neg_count_ref (snd layout)) < length (fst layout)"
    and before:
      "read_vector (fst layout) (train_pos_items_ref (snd layout)) = [1, 2, 3]"
      "read_matrix (fst layout) (negative_table_ref (snd layout))
           = [[0, 2, 3, 65535], [0, 1, 3, 65535]]"
      "read_vector (fst layout) (per_user_neg_count_ref (snd layout)) = [3, 3]"
    unfolding and_then_Ok_iff by (elim exE conjE) simp
  have a: "read_vector (fst (get_training_batch_in_store first_index (snd layout) (fst layout)))
            (train_pos_items_ref (snd layout)) = [1, 2, 3]"
    using batch_construction_leaves_arrays_unchanged
      [where sampler = first_index and self = "snd layout" and h = "fst layout"
         and h' = "fst (get_training_batch_in_store first_index (snd layout) (fst layout))",
       OF _ stored] before(1)
    by simp
  have b: "read_matrix (fst (get_eval_batch_in_store 1 first_index (snd layout) (fst layout) 0))
            (negative_table_ref (snd layout)) = [[0, 2, 3, 65535], [0, 1, 3, 65535]]"
    using batch_construction_leaves_arrays_unchanged
      [where sampler = first_index and self = "snd layout" and h = "fst layout"
         and NUM_EVAL_NEGATIVES = 1 and i = 0
         and h' = "fst (get_eval_batch_in_store 1 first_index (snd layout) (fst layout) 0)",
       OF _ stored] before(2)
    by simp
  have c: "read_vector
            (fst (lookup_negative_items_in_store first_index (snd layout) (fst layout)
                    (train_pos_users_ref (snd layout))))
            (per_user_neg_count_ref (snd layout)) = [3, 3]"
    using batch_construction_leaves_arrays_unchanged
      [where sampler = first_index and self = "snd layout" and h = "fst layout"
         and negative_users = "train_pos_users_ref (snd layout)"
         and h' = "fst (lookup_negative_items_in_store first_index (snd layout) (fst layout)
                    (train_pos_users_ref (snd layout)))",
       OF _ stored] before(3)
    by simp
  from stored a b c show ?thesis
    unfolding ex by (simp only: result.case)
qed

end
